theory Spec2Isabelle
  imports Main "HOL-Library.Word" "HOL-Library.Multiset"
begin

unbundle bit_operations_syntax

section \<open>Strings, bytes and their encodings\<close>

text \<open>
  A JavaScript string is a sequence of 16-bit code units; a \<^verbatim>\<open>Buffer\<close> is a sequence of
  bytes. Message content (plaintext as well as the stored envelope) is a JavaScript
  string. Identifiers (\<^verbatim>\<open>ObjectId\<close>s and their string forms) are only ever compared
  for equality (\<^verbatim>\<open>toString() ===\<close>, Mongoose's \<^verbatim>\<open>includes\<close>), so they are
  plain strings, as are names and error texts.
\<close>

type_synonym byte = "8 word"
type_synonym jsstring = "16 word list"
type_synonym oid = string

text \<open>An ASCII literal as a JavaScript string.\<close>

definition js :: "string \<Rightarrow> jsstring" where
  "js s = map (\<lambda>c. of_nat (of_char c)) s"

text \<open>
  \<^verbatim>\<open>cipher.update(text)\<close> and \<^verbatim>\<open>Buffer.from(text)\<close> encode a string as UTF-8: a
  surrogate pair becomes one four-byte sequence, a surrogate without its partner
  becomes U+FFFD (bytes EF BF BD).
\<close>

fun utf8_encode :: "jsstring \<Rightarrow> byte list" where
  "utf8_encode [] = []"
| "utf8_encode (u # us) =
     (let c = unat u in
      if c < 0x80 then of_nat c # utf8_encode us
      else if c < 0x800 then
        of_nat (0xC0 + c div 64) # of_nat (0x80 + c mod 64) # utf8_encode us
      else if 0xD800 \<le> c \<and> c < 0xDC00 then
        (case us of
           [] \<Rightarrow> [0xEF, 0xBF, 0xBD]
         | l # us' \<Rightarrow>
             if 0xDC00 \<le> unat l \<and> unat l < 0xE000 then
               (let cp = 0x10000 + (c - 0xD800) * 1024 + (unat l - 0xDC00) in
                of_nat (0xF0 + cp div 262144) # of_nat (0x80 + (cp div 4096) mod 64) #
                of_nat (0x80 + (cp div 64) mod 64) # of_nat (0x80 + cp mod 64) #
                utf8_encode us')
             else 0xEF # 0xBF # 0xBD # utf8_encode us)
      else if 0xDC00 \<le> c \<and> c < 0xE000 then 0xEF # 0xBF # 0xBD # utf8_encode us
      else of_nat (0xE0 + c div 4096) # of_nat (0x80 + (c div 64) mod 64) #
           of_nat (0x80 + c mod 64) # utf8_encode us)"

text \<open>
  \<^verbatim>\<open>buf.toString()\<close> decodes UTF-8, replacing every ill-formed sequence by U+FFFD and
  resuming at the offending byte; a code point beyond U+FFFF becomes a surrogate pair
  (\<open>code_units\<close>). \<open>isWellFormed\<close> is \<^verbatim>\<open>String.prototype.isWellFormed\<close>: no surrogate
  stands without its partner.
\<close>

definition cont :: "byte \<Rightarrow> bool" where
  "cont b = (0x80 \<le> unat b \<and> unat b \<le> 0xBF)"

definition code_units :: "nat \<Rightarrow> jsstring" where
  "code_units cp =
     (if cp < 0x10000 then [of_nat cp]
      else [of_nat (0xD800 + (cp - 0x10000) div 1024), of_nat (0xDC00 + (cp - 0x10000) mod 1024)])"

fun utf8_decode :: "byte list \<Rightarrow> jsstring" where
  "utf8_decode [] = []"
| "utf8_decode (b # bs) =
     (let x = unat b in
      if x < 0x80 then of_nat x # utf8_decode bs
      else if 0xC2 \<le> x \<and> x \<le> 0xDF then
        (case bs of
           [] \<Rightarrow> [0xFFFD]
         | b1 # bs1 \<Rightarrow>
             if cont b1 then of_nat ((x mod 32) * 64 + unat b1 mod 64) # utf8_decode bs1
             else 0xFFFD # utf8_decode bs)
      else if 0xE0 \<le> x \<and> x \<le> 0xEF then
        (case bs of
           [] \<Rightarrow> [0xFFFD]
         | b1 # bs1 \<Rightarrow>
             if (if x = 0xE0 then 0xA0 else 0x80) \<le> unat b1 \<and>
                unat b1 \<le> (if x = 0xED then 0x9F else 0xBF) then
               (case bs1 of
                  [] \<Rightarrow> [0xFFFD]
                | b2 # bs2 \<Rightarrow>
                    if cont b2 then
                      of_nat ((x mod 16) * 4096 + (unat b1 mod 64) * 64 + unat b2 mod 64) #
                      utf8_decode bs2
                    else 0xFFFD # utf8_decode bs1)
             else 0xFFFD # utf8_decode bs)
      else if 0xF0 \<le> x \<and> x \<le> 0xF4 then
        (case bs of
           [] \<Rightarrow> [0xFFFD]
         | b1 # bs1 \<Rightarrow>
             if (if x = 0xF0 then 0x90 else 0x80) \<le> unat b1 \<and>
                unat b1 \<le> (if x = 0xF4 then 0x8F else 0xBF) then
               (case bs1 of
                  [] \<Rightarrow> [0xFFFD]
                | b2 # bs2 \<Rightarrow>
                    if cont b2 then
                      (case bs2 of
                         [] \<Rightarrow> [0xFFFD]
                       | b3 # bs3 \<Rightarrow>
                           if cont b3 then
                             code_units ((x mod 8) * 262144 + (unat b1 mod 64) * 4096 +
                                         (unat b2 mod 64) * 64 + unat b3 mod 64) @
                             utf8_decode bs3
                           else 0xFFFD # utf8_decode bs2)
                    else 0xFFFD # utf8_decode bs1)
             else 0xFFFD # utf8_decode bs)
      else 0xFFFD # utf8_decode bs)"

fun isWellFormed :: "jsstring \<Rightarrow> bool" where
  "isWellFormed [] = True"
| "isWellFormed (u # us) =
     (if 0xD800 \<le> unat u \<and> unat u < 0xDC00 then
        (case us of [] \<Rightarrow> False
         | l # us' \<Rightarrow> 0xDC00 \<le> unat l \<and> unat l < 0xE000 \<and> isWellFormed us')
      else \<not> (0xDC00 \<le> unat u \<and> unat u < 0xE000) \<and> isWellFormed us)"

text \<open>
  \<^verbatim>\<open>buf.toString('hex')\<close> writes two lower-case digits per byte.
  \<^verbatim>\<open>Buffer.from(s, 'hex')\<close> reads pairs of hex digits and stops at the first pair that is
  not one (a trailing single character is dropped). \<open>split_on\<close> and \<open>join_with\<close> are
  \<^verbatim>\<open>String.prototype.split\<close> and \<^verbatim>\<open>Array.prototype.join\<close> for a one-character separator.
\<close>

definition hex_digit :: "nat \<Rightarrow> 16 word" where
  "hex_digit n = (if n < 10 then of_nat (48 + n) else of_nat (87 + n))"

definition hex_encode :: "byte list \<Rightarrow> jsstring" where
  "hex_encode bs = concat (map (\<lambda>b. [hex_digit (unat b div 16), hex_digit (unat b mod 16)]) bs)"

definition hex_val :: "16 word \<Rightarrow> nat option" where
  "hex_val u =
     (let c = unat u in
      if 48 \<le> c \<and> c \<le> 57 then Some (c - 48)
      else if 97 \<le> c \<and> c \<le> 102 then Some (c - 87)
      else if 65 \<le> c \<and> c \<le> 70 then Some (c - 55)
      else None)"

fun hex_decode :: "jsstring \<Rightarrow> byte list" where
  "hex_decode (a # b # rest) =
     (case hex_val a of
        None \<Rightarrow> []
      | Some x \<Rightarrow>
          (case hex_val b of
             None \<Rightarrow> []
           | Some y \<Rightarrow> of_nat (x * 16 + y) # hex_decode rest))"
| "hex_decode _ = []"

fun split_on :: "'a \<Rightarrow> 'a list \<Rightarrow> 'a list list" where
  "split_on sep [] = [[]]"
| "split_on sep (c # cs) =
     (if c = sep then [] # split_on sep cs
      else (case split_on sep cs of
              [] \<Rightarrow> [[c]]
            | p # ps \<Rightarrow> (c # p) # ps))"

fun join_with :: "'a \<Rightarrow> 'a list list \<Rightarrow> 'a list" where
  "join_with sep [] = []"
| "join_with sep [p] = p"
| "join_with sep (p # ps) = p @ sep # join_with sep ps"

section \<open>utils/crypto.js\<close>

text \<open>
  The block cipher is the \<^verbatim>\<open>crypto\<close> module's AES-256-CBC, which is not code of the
  repository: the model takes it as a parameter. \<open>cipheriv env key iv data\<close> is
  \<^verbatim>\<open>createCipheriv('aes-256-cbc', key, iv)\<close> followed by \<^verbatim>\<open>update(data)\<close> and
  \<^verbatim>\<open>final()\<close>; \<open>decipheriv\<close> is its inverse and is \<open>None\<close> where \<^verbatim>\<open>final()\<close> throws.
  \<^verbatim>\<open>createCipheriv\<close> itself throws unless the key has 32 bytes and the IV 16.
  \<open>ENCRYPTION_KEY\<close> is the module constant (a hex string), and the \<open>iv\<close> argument of
  \<open>encryptMessage\<close> is the value \<^verbatim>\<open>crypto.randomBytes(IV_LENGTH)\<close> returned.
  Both functions catch every exception and rethrow their own error.
\<close>

datatype crypto_error = FailedToEncrypt | FailedToDecrypt

record crypto =
  cipheriv :: "byte list \<Rightarrow> byte list \<Rightarrow> byte list \<Rightarrow> byte list"
  decipheriv :: "byte list \<Rightarrow> byte list \<Rightarrow> byte list \<Rightarrow> byte list option"
  ENCRYPTION_KEY :: jsstring

definition encryptMessage :: "crypto \<Rightarrow> byte list \<Rightarrow> jsstring \<Rightarrow> crypto_error + jsstring" where
  "encryptMessage env iv txt =
     (let key = hex_decode (ENCRYPTION_KEY env) in
      if length key = 32 \<and> length iv = 16 then
        Inr (hex_encode iv @ 0x3A # hex_encode (cipheriv env key iv (utf8_encode txt)))
      else Inl FailedToEncrypt)"

definition decryptMessage :: "crypto \<Rightarrow> jsstring \<Rightarrow> crypto_error + jsstring" where
  "decryptMessage env txt =
     (case split_on 0x3A txt of
        [] \<Rightarrow> Inl FailedToDecrypt
      | ivHex # textParts \<Rightarrow>
          (let iv = hex_decode ivHex;
               encryptedText = hex_decode (join_with 0x3A textParts);
               key = hex_decode (ENCRYPTION_KEY env) in
           if length key = 32 \<and> length iv = 16 then
             (case decipheriv env key iv encryptedText of
                None \<Rightarrow> Inl FailedToDecrypt
              | Some decrypted \<Rightarrow> Inr (utf8_decode decrypted))
           else Inl FailedToDecrypt))"

text \<open>
  \<open>cipher_ok\<close> is the contract of the library's cipher: deciphering what was enciphered
  under the same 32-byte key and 16-byte IV gives the data back.
\<close>

definition cipher_ok :: "crypto \<Rightarrow> bool" where
  "cipher_ok env =
     (\<forall>key iv m. length key = 32 \<and> length iv = 16 \<longrightarrow>
        decipheriv env key iv (cipheriv env key iv m) = Some m)"

text \<open>
  A small instance of the cipher interface, used to run the model on concrete inputs:
  PKCS#7 padding to 16-byte blocks and a byte mask derived from key and IV.
\<close>

definition pkcs7_pad :: "byte list \<Rightarrow> byte list" where
  "pkcs7_pad m = (let n = 16 - length m mod 16 in m @ replicate n (of_nat n))"

definition pkcs7_unpad :: "byte list \<Rightarrow> byte list option" where
  "pkcs7_unpad p =
     (if p = [] \<or> length p mod 16 \<noteq> 0 then None
      else (let n = unat (last p) in
            if n = 0 \<or> 16 < n \<or> drop (length p - n) p \<noteq> replicate n (last p) then None
            else Some (take (length p - n) p)))"

definition first_byte :: "byte list \<Rightarrow> byte" where
  "first_byte bs = (case bs of [] \<Rightarrow> 0 | b # _ \<Rightarrow> b)"

definition mask_cipheriv :: "byte list \<Rightarrow> byte list \<Rightarrow> byte list \<Rightarrow> byte list" where
  "mask_cipheriv key iv m = map (\<lambda>b. b XOR (first_byte key XOR first_byte iv)) (pkcs7_pad m)"

definition mask_decipheriv :: "byte list \<Rightarrow> byte list \<Rightarrow> byte list \<Rightarrow> byte list option" where
  "mask_decipheriv key iv c =
     pkcs7_unpad (map (\<lambda>b. b XOR (first_byte key XOR first_byte iv)) c)"

definition demo_key :: jsstring where
  "demo_key = js ''000102030405060708090a0b0c0d0e0f101112131415161718191a1b1c1d1e1f''"

definition demo_crypto :: crypto where
  "demo_crypto = \<lparr>cipheriv = mask_cipheriv, decipheriv = mask_decipheriv,
                   ENCRYPTION_KEY = demo_key\<rparr>"

definition demo_iv :: "byte list" where
  "demo_iv = [0x10, 0x11, 0x12, 0x13, 0x14, 0x15, 0x16, 0x17,
              0x18, 0x19, 0x1a, 0x1b, 0x1c, 0x1d, 0x1e, 0x1f]"


section \<open>The document store\<close>

text \<open>
  The two collections, in insertion order. A \<open>message\<close> has the paths of
  \<^verbatim>\<open>models/Message.js\<close> (\<open>msg_id\<close> is \<^verbatim>\<open>_id\<close>, \<open>msg_updatedAt\<close> is the message's
  \<^verbatim>\<open>updatedAt\<close>, and \<open>timestamp\<close>, \<open>ipAddress\<close>, \<open>userAgent\<close> are its \<^verbatim>\<open>metadata\<close>). A
  \<open>conversation\<close> has the paths of the conversation schema that the controller and
  the model's statics touch: \<^verbatim>\<open>participants\<close>, \<^verbatim>\<open>isGroup\<close>, \<^verbatim>\<open>groupInfo\<close> with its
  \<^verbatim>\<open>name\<close>, \<^verbatim>\<open>createdBy\<close> and \<^verbatim>\<open>admins\<close>, \<^verbatim>\<open>metadata.createdBy\<close> (required),
  \<^verbatim>\<open>metadata.updatedAt\<close>, the \<^verbatim>\<open>updatedAt\<close> of the \<^verbatim>\<open>timestamps\<close> option and
  \<^verbatim>\<open>participantDetails\<close>. Nothing in the controller or the socket handlers writes
  \<^verbatim>\<open>lastMessage\<close> or \<^verbatim>\<open>unreadCount\<close>, so they keep their defaults and are left out.
  Times are milliseconds since the epoch; the current time, a new document's
  \<^verbatim>\<open>_id\<close> and the request's address and user agent are arguments of the operation
  that uses them. \<^verbatim>\<open>_id\<close>s are unique in a collection, so an update or removal by
  \<^verbatim>\<open>_id\<close> is written over all documents with that \<^verbatim>\<open>_id\<close>. An \<open>oid\<close> is a well-formed
  identifier, the same whether it is held as an \<^verbatim>\<open>ObjectId\<close> or as its hex string.
\<close>

record message =
  msg_id :: oid
  conversationId :: oid
  sender :: oid
  recipient :: oid
  content :: jsstring
  isEncrypted :: bool
  read :: bool
  createdAt :: int
  msg_updatedAt :: int
  timestamp :: int
  ipAddress :: string
  userAgent :: string

record participant =
  user :: oid
  hasUnread :: bool
  lastRead :: int
  isMuted :: bool
  isPinned :: bool

record group_info =
  group_name :: "string option"
  group_createdBy :: "oid option"
  group_admins :: "oid list"

record conversation =
  conv_id :: oid
  participants :: "oid list"
  isGroup :: bool
  groupInfo :: group_info
  metadata_createdBy :: "oid option"
  metadata_updatedAt :: int
  updatedAt :: int
  participantDetails :: "participant list"

record store =
  conversations :: "conversation list"
  messages :: "message list"

definition empty_store :: store where
  "empty_store = \<lparr>conversations = [], messages = []\<rparr>"

text \<open>
  The \<^verbatim>\<open>groupInfo\<close> of a document built without one: no name, no creator, and the
  empty array that is the default of every array path.
\<close>

definition default_groupInfo :: group_info where
  "default_groupInfo = \<lparr>group_name = None, group_createdBy = None, group_admins = []\<rparr>"

text \<open>
  The schema is strict and has no top-level path \<^verbatim>\<open>admins\<close>, \<^verbatim>\<open>name\<close> or
  \<^verbatim>\<open>createdBy\<close>: the constructor drops such keys, no stored document has such a field,
  and reading \<^verbatim>\<open>conversation.admins\<close>, \<^verbatim>\<open>conversation.name\<close> or
  \<^verbatim>\<open>conversation.createdBy\<close> on a document yields \<^verbatim>\<open>undefined\<close> (\<open>None\<close>). A query
  filter on such a path is sent to the database as it is (\<^verbatim>\<open>strictQuery\<close> is off by
  default) and matches no stored document.
\<close>

definition admins :: "conversation \<Rightarrow> oid list option" where
  "admins conversation = None"

definition name :: "conversation \<Rightarrow> string option" where
  "name conversation = None"

definition createdBy :: "conversation \<Rightarrow> oid option" where
  "createdBy conversation = None"

definition save_conversation :: "conversation \<Rightarrow> store \<Rightarrow> store" where
  "save_conversation c s =
     s\<lparr>conversations := map (\<lambda>x. if conv_id x = conv_id c then c else x) (conversations s)\<rparr>"

definition delete_conversation :: "oid \<Rightarrow> store \<Rightarrow> store" where
  "delete_conversation cid s =
     s\<lparr>conversations := filter (\<lambda>c. conv_id c \<noteq> cid) (conversations s)\<rparr>"

definition save_message :: "message \<Rightarrow> store \<Rightarrow> store" where
  "save_message m s =
     s\<lparr>messages := map (\<lambda>x. if msg_id x = msg_id m then m else x) (messages s)\<rparr>"

text \<open>
  \<^verbatim>\<open>[...new Set(xs)]\<close>: the elements in order of first occurrence. A \<^verbatim>\<open>Set\<close> compares
  strings by value and objects by identity: the \<^verbatim>\<open>ObjectId\<close>s of a loaded document
  are distinct objects, so in \<^verbatim>\<open>new Set([...conversation.participants, ...strings])\<close>
  only the strings are deduplicated.
\<close>

definition set_add :: "'a \<Rightarrow> 'a list \<Rightarrow> 'a list" where
  "set_add x acc = (if x \<in> set acc then acc else acc @ [x])"

definition js_set :: "'a list \<Rightarrow> 'a list" where
  "js_set xs = fold set_add xs []"

subsection \<open>Validation and saving of a conversation\<close>

text \<open>
  The validator \<^verbatim>\<open>arrayLimit\<close> is declared on the element of \<^verbatim>\<open>participants\<close>, so
  it is run on every participant identifier and never on the array. An \<^verbatim>\<open>ObjectId\<close>
  has no \<^verbatim>\<open>length\<close>: \<^verbatim>\<open>val.length\<close> is \<^verbatim>\<open>undefined\<close>, and \<^verbatim>\<open>undefined >= 2\<close> is false.
  \<open>validate\<close> is the validation that \<^verbatim>\<open>save()\<close> runs before any \<^verbatim>\<open>pre('save')\<close> hook of
  the schema: every participant passes \<^verbatim>\<open>arrayLimit\<close> and the required
  \<^verbatim>\<open>metadata.createdBy\<close> is there. A failed validation rejects the save with a
  \<^verbatim>\<open>ValidationError\<close> and writes nothing.
\<close>

datatype model_error = ValidationError

definition js_length :: "oid \<Rightarrow> nat option" where
  "js_length val = None"

definition arrayLimit :: "oid \<Rightarrow> bool" where
  "arrayLimit val = (case js_length val of None \<Rightarrow> False | Some n \<Rightarrow> 2 \<le> n)"

definition validate :: "conversation \<Rightarrow> bool" where
  "validate c = (list_all arrayLimit (participants c) \<and> metadata_createdBy c \<noteq> None)"

text \<open>
  The schema's \<^verbatim>\<open>pre('save')\<close> hook: on a new document participant details are
  initialised from the participants when none were given and \<^verbatim>\<open>metadata.createdBy\<close>
  is taken from the first participant when it is missing; \<^verbatim>\<open>metadata.updatedAt\<close> is
  set in both cases. \<open>save_new\<close> and \<open>save_loaded\<close> are \<^verbatim>\<open>save()\<close> on a document just
  constructed and on one loaded from the collection.
\<close>

definition new_participant :: "int \<Rightarrow> oid \<Rightarrow> participant" where
  "new_participant now u =
     \<lparr>user = u, hasUnread = False, lastRead = now, isMuted = False, isPinned = False\<rparr>"

definition pre_save :: "int \<Rightarrow> bool \<Rightarrow> conversation \<Rightarrow> conversation" where
  "pre_save now isNew c =
     (if isNew then
        (let c1 = (if participantDetails c = [] \<and> participants c \<noteq> []
                   then c\<lparr>participantDetails := map (new_participant now) (participants c)\<rparr>
                   else c);
             c2 = (if metadata_createdBy c1 = None \<and> participants c1 \<noteq> []
                   then c1\<lparr>metadata_createdBy := Some (hd (participants c1))\<rparr>
                   else c1)
         in c2\<lparr>metadata_updatedAt := now\<rparr>)
      else c\<lparr>metadata_updatedAt := now\<rparr>)"

definition save_new :: "int \<Rightarrow> conversation \<Rightarrow> store \<Rightarrow> model_error + conversation \<times> store" where
  "save_new now c s =
     (if validate c
      then (let d = (pre_save now True c)\<lparr>updatedAt := now\<rparr>
            in Inr (d, s\<lparr>conversations := conversations s @ [d]\<rparr>))
      else Inl ValidationError)"

definition save_loaded :: "int \<Rightarrow> conversation \<Rightarrow> store \<Rightarrow> model_error + conversation \<times> store" where
  "save_loaded now c s =
     (if validate c
      then (let d = (pre_save now False c)\<lparr>updatedAt := now\<rparr>
            in Inr (d, save_conversation d s))
      else Inl ValidationError)"

section \<open>Responses and socket events\<close>

text \<open>
  An HTTP handler answers with a status and a body (\<open>Reply\<close>) or with a status and an
  error text (\<open>Failure\<close>); an exception inside a handler is caught by its
  \<^verbatim>\<open>try/catch\<close> and answered with 500. An emission is an event with its target: the
  room \<^verbatim>\<open>user_<id>\<close> (\<open>Room id\<close>) or the calling socket (\<open>Caller\<close>). Payloads carry
  identifiers where the source sends populated documents.
\<close>

datatype 'a response = Reply nat 'a | Failure nat string

datatype event =
    NewMessage message
  | ReceiveMessage message
  | MessageSent message
  | ErrorEvent string
  | MessageReadEvent oid
  | ConversationDeleted oid oid
  | GroupDeleted oid
  | ParticipantLeft oid oid conversation
  | LeftGroup oid "string option"
  | ParticipantRemoved oid oid conversation
  | RemovedFromGroup oid "string option"
  | GroupUpdated conversation "oid list option"
  | AddedToGroup oid "string option" "oid list option"
  | NewConversation conversation

datatype target = Room oid | Caller

type_synonym emission = "target \<times> event"

section \<open>controllers/messageController.js\<close>

subsection \<open>getMessages\<close>

text \<open>
  The query sorts by \<^verbatim>\<open>createdAt\<close> descending and keeps the first \<open>n\<close> documents;
  where two documents have the same \<^verbatim>\<open>createdAt\<close> the database leaves their
  order open, and the model keeps insertion order. \<open>before\<close> is the parsed
  \<^verbatim>\<open>before\<close> parameter (\<open>None\<close> when it is absent), \<open>limit\<close> the \<^verbatim>\<open>limit\<close> parameter
  (default 50). \<open>matching\<close> is the query \<^verbatim>\<open>{conversationId, createdAt: {$lt: before}}\<close>.
\<close>

definition older_than :: "int option \<Rightarrow> message \<Rightarrow> bool" where
  "older_than before m = (case before of None \<Rightarrow> True | Some b \<Rightarrow> createdAt m < b)"

definition matching :: "store \<Rightarrow> oid \<Rightarrow> int option \<Rightarrow> message list" where
  "matching s cid before =
     filter (\<lambda>m. conversationId m = cid \<and> older_than before m) (messages s)"

definition find_messages :: "store \<Rightarrow> oid \<Rightarrow> int option \<Rightarrow> nat \<Rightarrow> message list" where
  "find_messages s cid before n =
     take n (sort_key (\<lambda>m. - createdAt m) (matching s cid before))"

definition decryptedMessage :: "crypto \<Rightarrow> message \<Rightarrow> message" where
  "decryptedMessage env m =
     (if isEncrypted m then
        (case decryptMessage env (content m) of
           Inr plain \<Rightarrow> m\<lparr>content := plain\<rparr>
         | Inl error \<Rightarrow> m\<lparr>content := js ''[Message decryption failed]''\<rparr>)
      else m)"

definition getMessages ::
  "crypto \<Rightarrow> store \<Rightarrow> oid \<Rightarrow> nat option \<Rightarrow> int option \<Rightarrow> oid \<Rightarrow> (message list \<times> bool) response"
where
  "getMessages env s cid limit before userId =
     (case find (\<lambda>c. conv_id c = cid \<and> userId \<in> set (participants c)) (conversations s) of
        None \<Rightarrow> Failure 403 ''Not authorized to view these messages''
      | Some conversation \<Rightarrow>
          (let lim = (case limit of None \<Rightarrow> 50 | Some l \<Rightarrow> l);
               found = find_messages s cid before (lim + 1);
               hasMore = (lim < length found);
               page = (if hasMore then butlast found else found)
           in Reply 200 (rev (map (decryptedMessage env) page), hasMore)))"

subsection \<open>sendMessage\<close>

text \<open>
  The message is built from the request and saved as it is: \<^verbatim>\<open>models/Message.js\<close>
  registers no \<^verbatim>\<open>pre('save')\<close> hook, and \<^verbatim>\<open>isEncrypted\<close> takes its default
  \<^verbatim>\<open>true\<close>. The schema's \<^verbatim>\<open>required\<close> rejects an empty content string. After the
  message is stored the handler sets \<^verbatim>\<open>updatedAt\<close> on the conversation it found and
  saves it; when that save is rejected the handler answers 500 and emits nothing,
  and the message stays stored.
\<close>

definition sendMessage ::
  "int \<Rightarrow> oid \<Rightarrow> string \<Rightarrow> string \<Rightarrow> store \<Rightarrow> oid \<Rightarrow> oid \<Rightarrow> jsstring \<Rightarrow> oid \<Rightarrow>
   message response \<times> store \<times> emission list"
where
  "sendMessage now newId ip agent s cid recipientId body senderId =
     (case find (\<lambda>c. conv_id c = cid \<and> senderId \<in> set (participants c) \<and>
                      recipientId \<in> set (participants c)) (conversations s) of
        None \<Rightarrow> (Failure 403 ''Not authorized to send message in this conversation'', s, [])
      | Some conversation \<Rightarrow>
          if body = [] then (Failure 500 ''Failed to send message'', s, [])
          else
            (let m = \<lparr>msg_id = newId, conversationId = cid, sender = senderId,
                      recipient = recipientId, content = body, isEncrypted = True,
                      read = False, createdAt = now, msg_updatedAt = now, timestamp = now,
                      ipAddress = ip, userAgent = agent\<rparr>;
                 s1 = s\<lparr>messages := messages s @ [m]\<rparr>
             in case save_loaded now (conversation\<lparr>updatedAt := now\<rparr>) s1 of
                  Inl error \<Rightarrow> (Failure 500 ''Failed to send message'', s1, [])
                | Inr (saved, s2) \<Rightarrow> (Reply 201 m, s2, [(Room recipientId, NewMessage m)])))"

subsection \<open>markAsRead\<close>

definition markAsRead ::
  "int \<Rightarrow> store \<Rightarrow> oid \<Rightarrow> oid \<Rightarrow> message response \<times> store \<times> emission list"
where
  "markAsRead now s messageId userId =
     (case find (\<lambda>m. msg_id m = messageId \<and> recipient m = userId) (messages s) of
        None \<Rightarrow> (Failure 404 ''Message not found'', s, [])
      | Some found \<Rightarrow>
          (let m = found\<lparr>read := True, msg_updatedAt := now\<rparr>
           in (Reply 200 m, save_message m s, [(Room (sender m), MessageReadEvent messageId)])))"

subsection \<open>deleteConversation\<close>

text \<open>
  The \<^verbatim>\<open>$or\<close> of the query has a branch on \<^verbatim>\<open>createdBy\<close>, which no stored document
  has. For a group the handler reads \<^verbatim>\<open>conversation.admins.includes\<close>; on
  \<^verbatim>\<open>undefined\<close> that is a \<^verbatim>\<open>TypeError\<close>, answered with 500.
\<close>

definition deleteConversation ::
  "store \<Rightarrow> oid \<Rightarrow> oid \<Rightarrow> unit response \<times> store \<times> emission list"
where
  "deleteConversation s cid userId =
     (case find (\<lambda>c. conv_id c = cid \<and>
                      (userId \<in> set (participants c) \<or> createdBy c = Some userId))
             (conversations s) of
        None \<Rightarrow>
          (Failure 404 ''Conversation not found or you do not have permission to delete it'',
           s, [])
      | Some conversation \<Rightarrow>
          (let deleted =
                 (Reply 200 (),
                  delete_conversation cid
                    (s\<lparr>messages := filter (\<lambda>m. conversationId m \<noteq> cid) (messages s)\<rparr>),
                  map (\<lambda>p. (Room p, ConversationDeleted cid userId))
                    (filter (\<lambda>p. p \<noteq> userId) (participants conversation)))
           in if isGroup conversation
              then (case admins conversation of
                      None \<Rightarrow> (Failure 500 ''Failed to delete conversation'', s, [])
                    | Some ads \<Rightarrow>
                        if userId \<notin> set ads
                        then (Failure 403 ''Only group admins can delete the conversation'',
                              s, [])
                        else deleted)
              else deleted))"

subsection \<open>leaveGroup\<close>

text \<open>
  The first thing the handler does with the group it found is to read
  \<^verbatim>\<open>conversation.admins.length\<close>, a \<^verbatim>\<open>TypeError\<close> on \<^verbatim>\<open>undefined\<close> that is answered
  with 500. What follows in the source is written out under \<open>Some ads\<close>; its
  assignment to \<^verbatim>\<open>conversation.admins\<close> sets no schema path and is not saved.
\<close>

definition only_admin :: string where
  "only_admin =
     ''You are the only admin. Please assign another admin before leaving or delete the group.''"

definition leaveGroup ::
  "int \<Rightarrow> store \<Rightarrow> oid \<Rightarrow> oid \<Rightarrow> conversation option response \<times> store \<times> emission list"
where
  "leaveGroup now s cid userId =
     (case find (\<lambda>c. conv_id c = cid \<and> isGroup c \<and> userId \<in> set (participants c))
             (conversations s) of
        None \<Rightarrow>
          (Failure 404 ''Group conversation not found or you are not a participant'', s, [])
      | Some conversation \<Rightarrow>
          (case admins conversation of
             None \<Rightarrow> (Failure 500 ''Failed to leave group'', s, [])
           | Some ads \<Rightarrow>
               (let isLastAdmin = (length ads = 1 \<and> hd ads = userId)
                in if isLastAdmin then (Failure 400 only_admin, s, [])
                   else
                     (let ps = filter (\<lambda>i. i \<noteq> userId) (participants conversation)
                      in if length ps = 0
                         then (Reply 200 None, delete_conversation cid s,
                               [(Room userId, GroupDeleted cid)])
                         else
                           (case save_loaded now
                                   (conversation\<lparr>participants := ps, updatedAt := now\<rparr>) s of
                              Inl error \<Rightarrow> (Failure 500 ''Failed to leave group'', s, [])
                            | Inr (c, s1) \<Rightarrow>
                                (Reply 200 (Some c), s1,
                                 map (\<lambda>p. (Room p, ParticipantLeft cid userId c)) ps @
                                 [(Room userId, LeftGroup cid (name c))]))))))"

subsection \<open>removeParticipantFromGroup\<close>

definition removeParticipantFromGroup ::
  "int \<Rightarrow> store \<Rightarrow> oid \<Rightarrow> oid \<Rightarrow> oid \<Rightarrow>
   conversation option response \<times> store \<times> emission list"
where
  "removeParticipantFromGroup now s cid participantId currentUserId =
     (case find (\<lambda>c. conv_id c = cid \<and> isGroup c \<and> currentUserId \<in> set (participants c))
             (conversations s) of
        None \<Rightarrow> (Failure 404 ''Conversation not found or access denied'', s, [])
      | Some conversation \<Rightarrow>
          if participantId \<notin> set (participants conversation)
          then (Failure 400 ''User is not a participant in this group'', s, [])
          else
            (case admins conversation of
               None \<Rightarrow> (Failure 500 ''Failed to remove participant from group'', s, [])
             | Some ads \<Rightarrow>
                 if currentUserId \<notin> set ads
                 then (Failure 403 ''Only group admins can remove participants'', s, [])
                 else if participantId = currentUserId \<and> length ads = 1 \<and>
                         hd ads = currentUserId
                 then (Failure 400 only_admin, s, [])
                 else
                   (let ps = filter (\<lambda>i. i \<noteq> participantId) (participants conversation)
                    in if length ps = 0
                       then (Reply 200 None, delete_conversation cid s,
                             [(Room participantId, GroupDeleted cid)])
                       else
                         (case save_loaded now
                                 (conversation\<lparr>participants := ps, updatedAt := now\<rparr>) s of
                            Inl error \<Rightarrow>
                              (Failure 500 ''Failed to remove participant from group'', s, [])
                          | Inr (c, s1) \<Rightarrow>
                              (Reply 200 (Some c), s1,
                               map (\<lambda>p. (Room p, ParticipantRemoved cid participantId c)) ps @
                               [(Room participantId, RemovedFromGroup cid (name c))])))))"

subsection \<open>addParticipantsToGroup\<close>


subsection \<open>updateGroupConversation\<close>


subsection \<open>createGroupConversation\<close>

text \<open>
  The constructor is given \<^verbatim>\<open>name\<close>, \<^verbatim>\<open>createdBy\<close> and \<^verbatim>\<open>admins\<close>, which the strict
  schema drops: the document has the default \<^verbatim>\<open>groupInfo\<close> and no
  \<^verbatim>\<open>metadata.createdBy\<close>. The identifiers of the request are strings, which the
  \<^verbatim>\<open>Set\<close> compares by value.
\<close>

definition createGroupConversation ::
  "int \<Rightarrow> oid \<Rightarrow> store \<Rightarrow> string \<Rightarrow> oid list \<Rightarrow> oid \<Rightarrow>
   conversation response \<times> store \<times> emission list"
where
  "createGroupConversation now newId s groupName requested creatorId =
     (let allParticipants = js_set (requested @ [creatorId]);
          groupConversation =
            \<lparr>conv_id = newId, participants = allParticipants, isGroup = True,
             groupInfo = default_groupInfo, metadata_createdBy = None,
             metadata_updatedAt = now, updatedAt = now, participantDetails = []\<rparr>
      in case save_new now groupConversation s of
           Inl error \<Rightarrow> (Failure 500 ''Failed to create group conversation'', s, [])
         | Inr (g, s1) \<Rightarrow>
             (Reply 201 g, s1,
              map (\<lambda>p. (Room p, NewConversation g))
                (filter (\<lambda>p. p \<noteq> creatorId) allParticipants)))"

subsection \<open>getConversationById\<close>

text \<open>
  The reply carries the stored document; the display name the source derives from the
  participants' user documents is not part of the model.
\<close>

definition getConversationById :: "store \<Rightarrow> oid \<Rightarrow> oid \<Rightarrow> conversation response" where
  "getConversationById s cid userId =
     (case find (\<lambda>c. conv_id c = cid \<and> userId \<in> set (participants c)) (conversations s) of
        None \<Rightarrow> Failure 404 ''Conversation not found''
      | Some conversation \<Rightarrow> Reply 200 conversation)"

section \<open>socket.js\<close>

text \<open>
  The handlers of one authenticated socket; \<open>userId\<close> is \<^verbatim>\<open>socket.user.id\<close>. A missing
  field of the \<^verbatim>\<open>send_message\<close> payload is the empty string. Every exception is caught
  and answered with an \<^verbatim>\<open>error\<close> event (\<open>send_message\<close>) or logged (\<open>message_read\<close>).
  Saving a document without a modified path writes nothing, so a second
  \<^verbatim>\<open>message_read\<close> leaves the message as it is.
\<close>

definition send_message ::
  "crypto \<Rightarrow> byte list \<Rightarrow> int \<Rightarrow> oid \<Rightarrow> string \<Rightarrow> string \<Rightarrow> store \<Rightarrow> oid \<Rightarrow>
   oid \<Rightarrow> oid \<Rightarrow> jsstring \<Rightarrow> store \<times> emission list"
where
  "send_message env iv now newId address agent s userId cid recipientId body =
     (if body = [] \<or> recipientId = [] \<or> cid = []
      then (s, [(Caller, ErrorEvent ''Missing required fields'')])
      else
        (case encryptMessage env iv body of
           Inl error \<Rightarrow> (s, [(Caller, ErrorEvent ''Failed to send message'')])
         | Inr encryptedContent \<Rightarrow>
             (let m = \<lparr>msg_id = newId, conversationId = cid, sender = userId,
                       recipient = recipientId, content = encryptedContent,
                       isEncrypted = True, read = False, createdAt = now,
                       msg_updatedAt = now, timestamp = now, ipAddress = address,
                       userAgent = agent\<rparr>;
                  messageResponse = m\<lparr>content := body\<rparr>
              in (s\<lparr>messages := messages s @ [m]\<rparr>,
                  [(Room recipientId, ReceiveMessage messageResponse),
                   (Caller, MessageSent messageResponse)]))))"

definition message_read :: "int \<Rightarrow> store \<Rightarrow> oid \<Rightarrow> oid \<Rightarrow> store \<times> emission list" where
  "message_read now s userId messageId =
     (case find (\<lambda>m. msg_id m = messageId) (messages s) of
        None \<Rightarrow> (s, [])
      | Some m \<Rightarrow>
          if recipient m = userId
          then ((if read m then s
                 else save_message (m\<lparr>read := True, msg_updatedAt := now\<rparr>) s),
                [(Room (sender m), MessageReadEvent messageId)])
          else (s, []))"

section \<open>The statics of the conversation model\<close>

text \<open>
  The statics are called with identifiers as the caller has them: an \<^verbatim>\<open>ObjectId\<close>
  object (\<open>ObjectId address value\<close>, the address telling two objects of the same value
  apart, as a \<^verbatim>\<open>Set\<close> does) or a hex string. \<open>id_value\<close> is the cast that the
  constructor applies. The \<^verbatim>\<open>$eq\<close> inside \<^verbatim>\<open>$all\<close>/\<^verbatim>\<open>$elemMatch\<close> is not cast: an
  \<^verbatim>\<open>ObjectId\<close> matches the stored participant of its value, a string matches nothing.
  \<^verbatim>\<open>findOne\<close> returns the first document that matches. The options of \<^verbatim>\<open>createGroup\<close>
  (description, avatar, settings, tags) touch neither participants nor admins and
  are left out. A static has no \<^verbatim>\<open>try/catch\<close>: a rejected save is its outcome.
\<close>

datatype id_arg = ObjectId nat oid | HexString oid

fun id_value :: "id_arg \<Rightarrow> oid" where
  "id_value (ObjectId address v) = v"
| "id_value (HexString v) = v"

fun elem_eq :: "id_arg \<Rightarrow> oid \<Rightarrow> bool" where
  "elem_eq (ObjectId address v) p = (v = p)"
| "elem_eq (HexString v) p = False"

definition findOrCreateDirect ::
  "int \<Rightarrow> oid \<Rightarrow> store \<Rightarrow> id_arg \<Rightarrow> id_arg \<Rightarrow> (model_error + conversation) \<times> store"
where
  "findOrCreateDirect now newId s user1Id user2Id =
     (case find (\<lambda>c. \<not> isGroup c \<and> list_ex (elem_eq user1Id) (participants c) \<and>
                      list_ex (elem_eq user2Id) (participants c) \<and>
                      length (participants c) = 2)
             (conversations s) of
        Some conversation \<Rightarrow> (Inr conversation, s)
      | None \<Rightarrow>
          (case save_new now
                  \<lparr>conv_id = newId, participants = [id_value user1Id, id_value user2Id],
                   isGroup = False, groupInfo = default_groupInfo,
                   metadata_createdBy = Some (id_value user1Id),
                   metadata_updatedAt = now, updatedAt = now,
                   participantDetails =
                     [new_participant now (id_value user1Id),
                      new_participant now (id_value user2Id)]\<rparr> s of
             Inl error \<Rightarrow> (Inl error, s)
           | Inr (conversation, s1) \<Rightarrow> (Inr conversation, s1)))"

definition createGroup ::
  "int \<Rightarrow> oid \<Rightarrow> store \<Rightarrow> id_arg \<Rightarrow> string \<Rightarrow> id_arg list \<Rightarrow>
   (model_error + conversation) \<times> store"
where
  "createGroup now newId s creatorId groupName requested =
     (let allParticipants = map id_value (js_set (creatorId # requested))
      in case save_new now
                \<lparr>conv_id = newId, participants = allParticipants, isGroup = True,
                 groupInfo = \<lparr>group_name = Some groupName,
                              group_createdBy = Some (id_value creatorId),
                              group_admins = [id_value creatorId]\<rparr>,
                 metadata_createdBy = Some (id_value creatorId),
                 metadata_updatedAt = now, updatedAt = now,
                 participantDetails = map (new_participant now) allParticipants\<rparr> s of
           Inl error \<Rightarrow> (Inl error, s)
         | Inr (saved, s1) \<Rightarrow> (Inr saved, s1))"

section \<open>Sequences of group operations\<close>




section \<open>The admin invariant\<close>


section \<open>Sample data\<close>

text \<open>
  A direct conversation between A and B, a message as the HTTP handler stores it, and a
  message as the socket handler stores it (the envelope of ``hello'' under
  \<open>demo_crypto\<close> and \<open>demo_iv\<close>).
\<close>

definition chat_ab :: conversation where
  "chat_ab = \<lparr>conv_id = ''c1'', participants = [''A'', ''B''], isGroup = False,
              groupInfo = default_groupInfo, metadata_createdBy = Some ''A'',
              metadata_updatedAt = 0, updatedAt = 0, participantDetails = []\<rparr>"

definition plain_hello :: message where
  "plain_hello = \<lparr>msg_id = ''m1'', conversationId = ''c1'', sender = ''A'', recipient = ''B'',
      content = js ''hello'', isEncrypted = True, read = False, createdAt = 1000,
      msg_updatedAt = 1000, timestamp = 1000, ipAddress = ''10.0.0.1'', userAgent = ''agent''\<rparr>"

definition sealed_hello :: message where
  "sealed_hello = \<lparr>msg_id = ''m2'', conversationId = ''c1'', sender = ''B'', recipient = ''A'',
      content = js ''101112131415161718191a1b1c1d1e1f:78757c7c7f1b1b1b1b1b1b1b1b1b1b1b'',
      isEncrypted = True, read = False, createdAt = 2000,
      msg_updatedAt = 2000, timestamp = 2000, ipAddress = ''10.0.0.2'', userAgent = ''agent''\<rparr>"


definition last_member_group :: conversation where
  "last_member_group =
     \<lparr>conv_id = ''g1'', participants = [''C''], isGroup = True,
      groupInfo = \<lparr>group_name = Some ''team'', group_createdBy = Some ''C'',
                   group_admins = [''C'']\<rparr>,
      metadata_createdBy = Some ''C'', metadata_updatedAt = 2000, updatedAt = 2000,
      participantDetails = map (new_participant 1000) [''D'', ''C'']\<rparr>"


text \<open>
  Messages of the conversation between A and B that are stored unencrypted, a store
  whose messages have three different creation times (inserted out of order), and a
  store in which two messages were created in the same millisecond.
\<close>

definition memo :: "oid \<Rightarrow> int \<Rightarrow> message" where
  "memo i t =
     \<lparr>msg_id = i, conversationId = ''c1'', sender = ''A'', recipient = ''B'',
      content = js ''memo'', isEncrypted = False, read = False, createdAt = t,
      msg_updatedAt = t, timestamp = t, ipAddress = ''10.0.0.1'', userAgent = ''agent''\<rparr>"

definition timeline :: store where
  "timeline = \<lparr>conversations = [chat_ab],
               messages = [memo ''n1'' 1000, memo ''n3'' 3000, memo ''n2'' 2000]\<rparr>"

definition same_instant :: store where
  "same_instant = \<lparr>conversations = [chat_ab],
                   messages = [memo ''n1'' 1000, memo ''n2'' 2000, memo ''n3'' 2000]\<rparr>"

section \<open>Following the cursor\<close>

text \<open>
  The reader the pagination contract is written for: it asks for the newest page and,
  while \<open>hasMore\<close> is reported, asks again with the creation time of the oldest message
  it received as \<^verbatim>\<open>before\<close>, putting the older page in front. The loop is the
  client's, not the server's; it ends because every request narrows the query.
\<close>

lemma page_take:
  "(if L < length (take (Suc L) xs) then butlast (take (Suc L) xs) else take (Suc L) xs) = take L xs"
proof (cases "L < length xs")
  case True
  then have "butlast (take (Suc L) xs) = take L xs" by (simp add: butlast_take)
  then show ?thesis using True by simp
next
  case False
  then show ?thesis by simp
qed

lemma createdAt_decrypted [simp]: "createdAt (decryptedMessage env m) = createdAt m"
  by (simp add: decryptedMessage_def split: sum.splits)

lemma getMessages_page:
  assumes "find (\<lambda>c. conv_id c = cid \<and> userId \<in> set (participants c)) (conversations s) = Some c"
  shows "getMessages env s cid (Some L) before userId =
     Reply 200 (rev (map (decryptedMessage env) (take L (find_messages s cid before (L + 1)))),
                L < length (matching s cid before))"
proof -
  have "take L (take (Suc L) xs) = take L xs" for xs :: "message list" by simp
  then show ?thesis
    using assms page_take [of L "sort_key (\<lambda>m. - createdAt m) (matching s cid before)"]
    by (auto simp: getMessages_def find_messages_def Let_def)
qed

lemma getMessages_cases:
  "getMessages env s cid (Some L) before userId = Failure 403 ''Not authorized to view these messages'' \<or>
   getMessages env s cid (Some L) before userId =
     Reply 200 (rev (map (decryptedMessage env) (take L (find_messages s cid before (L + 1)))),
                L < length (matching s cid before))"
proof (cases "find (\<lambda>c. conv_id c = cid \<and> userId \<in> set (participants c)) (conversations s)")
  case None
  then show ?thesis by (simp add: getMessages_def)
next
  case (Some c)
  then show ?thesis using getMessages_page by blast
qed

lemma matching_narrow:
  assumes "m0 \<in> set (matching s cid before)"
  shows "matching s cid (Some (createdAt m0)) =
         filter (\<lambda>m. createdAt m < createdAt m0) (matching s cid before)"
proof -
  have "older_than before m" if "createdAt m < createdAt m0" for m
    using assms that by (cases before) (auto simp: matching_def older_than_def)
  then show ?thesis
    by (auto simp: matching_def older_than_def intro!: filter_cong)
qed

lemma cursor_decreases:
  assumes "getMessages env s cid (Some L) before userId = Reply st (page, hasMore)"
    and "page \<noteq> []"
  shows "length (matching s cid (Some (createdAt (hd page)))) < length (matching s cid before)"
proof -
  have p: "page = rev (map (decryptedMessage env) (take L (find_messages s cid before (L + 1))))"
    using assms(1) getMessages_cases [of env s cid L before userId] by auto
  then have sp: "set page = decryptedMessage env ` set (take L (find_messages s cid before (L + 1)))"
    by simp
  have "hd page \<in> set page" using assms(2) by simp
  then obtain m0 where m0: "m0 \<in> set (take L (find_messages s cid before (L + 1)))"
    and h: "hd page = decryptedMessage env m0"
    unfolding sp by auto
  have "m0 \<in> set (find_messages s cid before (L + 1))" using m0 by (rule in_set_takeD)
  then have "m0 \<in> set (sort_key (\<lambda>m. - createdAt m) (matching s cid before))"
    unfolding find_messages_def by (rule in_set_takeD)
  then have in_m: "m0 \<in> set (matching s cid before)" by simp
  have "length (filter (\<lambda>m. createdAt m < createdAt m0) (matching s cid before)) <
        length (matching s cid before)"
    by (rule length_filter_less [OF in_m]) simp
  then show ?thesis using matching_narrow [OF in_m] h by simp
qed

function follow_cursors ::
  "crypto \<Rightarrow> store \<Rightarrow> oid \<Rightarrow> nat \<Rightarrow> oid \<Rightarrow> int option \<Rightarrow> message list"
where
  "follow_cursors env s cid L userId before =
     (case getMessages env s cid (Some L) before userId of
        Failure status error \<Rightarrow> []
      | Reply status (page, hasMore) \<Rightarrow>
          if hasMore \<and> page \<noteq> []
          then follow_cursors env s cid L userId (Some (createdAt (hd page))) @ page
          else page)"
  by pat_completeness auto
termination
  by (relation "measure (\<lambda>(env, s, cid, L, userId, before). length (matching s cid before))")
    (auto dest: cursor_decreases)

declare follow_cursors.simps [simp del]

section \<open>Properties of the encodings\<close>

lemma strip_lead: "(d::nat) < n \<Longrightarrow> (k * n + d) mod n = d"
  by simp
lemma lead2: "(d::nat) < 32 \<Longrightarrow> (192 + d) mod 32 = d"
  using strip_lead [of d 32 6] by simp
lemma trail: "(e::nat) < 64 \<Longrightarrow> (128 + e) mod 64 = e"
  using strip_lead [of e 64 2] by simp
lemma lead3: "(d::nat) < 16 \<Longrightarrow> (224 + d) mod 16 = d"
  using strip_lead [of d 16 14] by simp
lemma lead4: "(d::nat) < 8 \<Longrightarrow> (240 + d) mod 8 = d"
  using strip_lead [of d 8 30] by simp
lemma split3: "(c::nat) div 4096 * 4096 + (c div 64 mod 64) * 64 + c mod 64 = c"
proof -
  have e: "c div 4096 = c div 64 div 64" by (simp add: div_mult2_eq)
  have "(c div 64 div 64 * 64 + c div 64 mod 64) * 64 = c div 64 * 64" by simp
  then have "c div 64 div 64 * 4096 + (c div 64 mod 64) * 64 = c div 64 * 64"
    by (simp only: distrib_right mult.assoc)
  then show ?thesis using e by simp
qed
lemma split4: "(c::nat) div 262144 * 262144 + (c div 4096 mod 64) * 4096 + (c div 64 mod 64) * 64 + c mod 64 = c"
proof -
  have e: "c div 262144 = c div 4096 div 64" by (simp add: div_mult2_eq)
  have "(c div 4096 div 64 * 64 + c div 4096 mod 64) * 4096 = c div 4096 * 4096" by simp
  then have "c div 4096 div 64 * 262144 + (c div 4096 mod 64) * 4096 = c div 4096 * 4096"
    by (simp only: distrib_right mult.assoc)
  then show ?thesis using e split3 [of c] by simp
qed
lemma unat_u16: "unat (u :: 16 word) < 65536"
  using unsigned_less [of u, where 'a=nat] by simp
lemma unat_byte: "n < 256 \<Longrightarrow> unat (of_nat n :: byte) = n"
  by (simp add: unat_of_nat)


lemma dec1: "unat b < 0x80 \<Longrightarrow> utf8_decode (b # bs) = of_nat (unat b) # utf8_decode bs"
  by (simp del: of_nat_unat)

lemma dec2_gen:
  assumes "unat b0 = 0xC0 + h" "unat b1 = 0x80 + l" "2 \<le> h" "h < 32" "l < 64"
  shows "utf8_decode (b0 # b1 # bs) = of_nat (h * 64 + l) # utf8_decode bs"
  using assms by (simp add: cont_def Let_def lead2 trail)


lemma dec3_gen:
  assumes "unat b0 = 0xE0 + h" "unat b1 = 0x80 + m" "unat b2 = 0x80 + l"
    "h < 16" "m < 64" "l < 64" "h = 0 \<longrightarrow> 32 \<le> m" "h = 13 \<longrightarrow> m < 32"
  shows "utf8_decode (b0 # b1 # b2 # bs) = of_nat (h * 4096 + m * 64 + l) # utf8_decode bs"
  using assms by (auto simp: cont_def Let_def lead3 trail)

lemma dec4_gen:
  assumes "unat b0 = 0xF0 + h" "unat b1 = 0x80 + m" "unat b2 = 0x80 + k" "unat b3 = 0x80 + l"
    "h < 5" "m < 64" "k < 64" "l < 64" "h = 0 \<longrightarrow> 16 \<le> m" "h = 4 \<longrightarrow> m < 16"
  shows "utf8_decode (b0 # b1 # b2 # b3 # bs) =
         code_units (h * 262144 + m * 4096 + k * 64 + l) @ utf8_decode bs"
  using assms by (auto simp: cont_def Let_def lead4 trail)

lemma digits: "(q::nat) = q div 64 * 64 + q mod 64" "q mod 64 < 64"
  by simp_all

lemma lin1: "(n::nat) * 64 + m = q \<Longrightarrow> q < n * 64 + r \<Longrightarrow> m < r"
  by linarith

lemma digit_bound: "(q::nat) < q div 64 * 64 + r \<Longrightarrow> q mod 64 < r"
  by (rule lin1 [OF div_mult_mod_eq])

lemma low_digit: "(q::nat) div 64 = 0 \<Longrightarrow> q mod 64 = q"
  by (simp add: div_eq_0_iff)

lemma rt1: "c < 0x80 \<Longrightarrow> utf8_decode (of_nat c # bs) = of_nat c # utf8_decode bs"
proof -
  assume c: "c < 0x80"
  have "unat (of_nat c :: byte) = c" by (rule unat_byte) (use c in simp)
  then show ?thesis using c dec1 [of "of_nat c" bs] by (simp del: of_nat_unat)
qed

lemma rt2:
  assumes "0x80 \<le> c" "c < 0x800"
  shows "utf8_decode (of_nat (0xC0 + c div 64) # of_nat (0x80 + c mod 64) # bs) =
         of_nat c # utf8_decode bs"
proof -
  have d: "c div 64 < 32" "2 \<le> c div 64" using assms by simp_all
  have a: "unat (of_nat (0xC0 + c div 64) :: byte) = 0xC0 + c div 64"
    by (rule unat_byte) (use d in simp)
  have b: "unat (of_nat (0x80 + c mod 64) :: byte) = 0x80 + c mod 64"
    by (rule unat_byte) simp
  have "utf8_decode (of_nat (0xC0 + c div 64) # of_nat (0x80 + c mod 64) # bs) =
        of_nat (c div 64 * 64 + c mod 64) # utf8_decode bs"
    by (rule dec2_gen [OF a b d(2) d(1)]) simp
  then show ?thesis by (simp only: div_mult_mod_eq)
qed

lemma rt3:
  assumes "0x800 \<le> c" "c < 0x10000" "\<not> (0xD800 \<le> c \<and> c < 0xE000)"
  shows "utf8_decode (of_nat (0xE0 + c div 4096) # of_nat (0x80 + (c div 64) mod 64) #
                      of_nat (0x80 + c mod 64) # bs) = of_nat c # utf8_decode bs"
proof -
  let ?q = "c div 64"
  have e: "c div 4096 = ?q div 64" by (simp add: div_mult2_eq)
  have h: "?q div 64 < 16" using assms unfolding e [symmetric] by simp
  have q32: "32 \<le> ?q" using assms by simp
  have z: "?q div 64 = 0 \<longrightarrow> 32 \<le> ?q mod 64"
    using q32 by (auto simp: low_digit)
  have s: "?q div 64 = 13 \<longrightarrow> ?q mod 64 < 32"
  proof
    assume t: "?q div 64 = 13"
    have "c div 4096 < 14" using t e by simp
    then have "c < 57344" by simp
    then have "c < 55296" using assms(3) by linarith
    then have "?q < 864" by simp
    then show "?q mod 64 < 32" using digit_bound [of ?q 32] t by simp
  qed
  have a: "unat (of_nat (0xE0 + ?q div 64) :: byte) = 0xE0 + ?q div 64"
    by (rule unat_byte) (use h in simp)
  have b: "unat (of_nat (0x80 + ?q mod 64) :: byte) = 0x80 + ?q mod 64"
    by (rule unat_byte) simp
  have c': "unat (of_nat (0x80 + c mod 64) :: byte) = 0x80 + c mod 64"
    by (rule unat_byte) simp
  have v: "?q div 64 * 4096 + ?q mod 64 * 64 + c mod 64 = c"
    using split3 [of c] by (simp add: e)
  have X: "utf8_decode (of_nat (0xE0 + ?q div 64) # of_nat (0x80 + ?q mod 64) #
                        of_nat (0x80 + c mod 64) # bs) =
           of_nat (?q div 64 * 4096 + ?q mod 64 * 64 + c mod 64) # utf8_decode bs"
    by (rule dec3_gen [OF a b c' h _ _ z s]) simp_all
  show ?thesis unfolding e by (rule X [unfolded v])
qed

lemma rt4:
  assumes "0x10000 \<le> c" "c < 0x110000"
  shows "utf8_decode (of_nat (0xF0 + c div 262144) # of_nat (0x80 + (c div 4096) mod 64) #
                      of_nat (0x80 + (c div 64) mod 64) # of_nat (0x80 + c mod 64) # bs) =
         code_units c @ utf8_decode bs"
proof -
  let ?q = "c div 4096"
  have e: "c div 262144 = ?q div 64" by (simp add: div_mult2_eq)
  have h: "?q div 64 < 5" using assms unfolding e [symmetric] by simp
  have q16: "16 \<le> ?q" using assms by simp
  have q272: "?q < 272" using assms by simp
  have z: "?q div 64 = 0 \<longrightarrow> 16 \<le> ?q mod 64"
    using q16 by (auto simp: low_digit)
  have s: "?q div 64 = 4 \<longrightarrow> ?q mod 64 < 16"
    using q272 digit_bound [of ?q 16] by auto
  have a: "unat (of_nat (0xF0 + ?q div 64) :: byte) = 0xF0 + ?q div 64"
    by (rule unat_byte) (use h in simp)
  have b: "unat (of_nat (0x80 + ?q mod 64) :: byte) = 0x80 + ?q mod 64"
    by (rule unat_byte) simp
  have k: "unat (of_nat (0x80 + (c div 64) mod 64) :: byte) = 0x80 + (c div 64) mod 64"
    by (rule unat_byte) simp
  have l: "unat (of_nat (0x80 + c mod 64) :: byte) = 0x80 + c mod 64"
    by (rule unat_byte) simp
  have v: "?q div 64 * 262144 + ?q mod 64 * 4096 + (c div 64) mod 64 * 64 + c mod 64 = c"
    using split4 [of c] by (simp add: e)
  have X: "utf8_decode (of_nat (0xF0 + ?q div 64) # of_nat (0x80 + ?q mod 64) #
                        of_nat (0x80 + (c div 64) mod 64) # of_nat (0x80 + c mod 64) # bs) =
           code_units (?q div 64 * 262144 + ?q mod 64 * 4096 + (c div 64) mod 64 * 64 + c mod 64) @
           utf8_decode bs"
    by (rule dec4_gen [OF a b k l h _ _ _ z s]) simp_all
  show ?thesis unfolding e by (rule X [unfolded v])
qed

lemma code_units_pair:
  assumes "h < 1024" "l < 1024"
  shows "code_units (0x10000 + h * 1024 + l) = [of_nat (0xD800 + h), of_nat (0xDC00 + l)]"
  using assms by (simp add: code_units_def)

lemma utf8_roundtrip: "isWellFormed s \<Longrightarrow> utf8_decode (utf8_encode s) = s"
proof (induction s rule: isWellFormed.induct)
  case 1
  then show ?case by simp
next
  case (2 u us)
  let ?c = "unat u"
  have u: "of_nat ?c = u" by simp
  have lt: "?c < 0x10000" using unat_u16 [of u] by simp
  show ?case
  proof (cases "0xD800 \<le> ?c \<and> ?c < 0xDC00")
    case True
    then obtain l us' where us: "us = l # us'" and lo: "0xDC00 \<le> unat l" "unat l < 0xE000"
      and wf: "isWellFormed us'"
      using "2.prems" by (auto split: list.splits)
    define h where "h = ?c - 0xD800"
    define k where "k = unat l - 0xDC00"
    have hk: "h < 1024" "k < 1024" using True lo unfolding h_def k_def by linarith+
    have cu: "?c = 0xD800 + h" "unat l = 0xDC00 + k" using True lo unfolding h_def k_def by linarith+
    have cp: "0x10000 \<le> 0x10000 + h * 1024 + k" "0x10000 + h * 1024 + k < 0x110000"
      using hk by simp_all
    have ih: "utf8_decode (utf8_encode us') = us'"
      using "2.IH"(1) [OF True us] lo wf by simp
    have pair: "code_units (0x10000 + h * 1024 + k) = [u, l]"
      using code_units_pair [OF hk] cu [symmetric] by simp
    have enc: "utf8_encode (u # us) =
        of_nat (0xF0 + (0x10000 + h * 1024 + k) div 262144) #
        of_nat (0x80 + ((0x10000 + h * 1024 + k) div 4096) mod 64) #
        of_nat (0x80 + ((0x10000 + h * 1024 + k) div 64) mod 64) #
        of_nat (0x80 + (0x10000 + h * 1024 + k) mod 64) # utf8_encode us'"
      using True lo us by (simp add: Let_def h_def k_def del: of_nat_add)
    have "utf8_decode (utf8_encode (u # us)) = code_units (0x10000 + h * 1024 + k) @
        utf8_decode (utf8_encode us')"
      unfolding enc by (rule rt4 [OF cp])
    then show ?thesis by (simp only: pair ih us append.simps)
  next
    case False
    then have nl: "\<not> (0xDC00 \<le> ?c \<and> ?c < 0xE000)" and wf: "isWellFormed us"
      using "2.prems" by auto
    have ih: "utf8_decode (utf8_encode us) = us"
      using "2.IH"(2) [OF False] wf by simp
    consider "?c < 0x80" | "0x80 \<le> ?c" "?c < 0x800" | "0x800 \<le> ?c" by linarith
    then show ?thesis
    proof cases
      case 1
      then have "utf8_encode (u # us) = of_nat ?c # utf8_encode us"
        by (simp add: Let_def del: of_nat_unat)
      then show ?thesis using rt1 [OF 1] ih u by (simp del: of_nat_unat)
    next
      case 2
      then have "utf8_encode (u # us) =
          of_nat (0xC0 + ?c div 64) # of_nat (0x80 + ?c mod 64) # utf8_encode us"
        by (simp add: Let_def del: of_nat_add)
      then show ?thesis using rt2 [OF 2] ih u by (simp del: of_nat_unat of_nat_add)
    next
      case 3
      have ns: "\<not> (0xD800 \<le> ?c \<and> ?c < 0xE000)" using False nl by auto
      have "utf8_encode (u # us) =
          of_nat (0xE0 + ?c div 4096) # of_nat (0x80 + (?c div 64) mod 64) #
          of_nat (0x80 + ?c mod 64) # utf8_encode us"
        using 3 by (simp add: Let_def False nl del: of_nat_add)
      then show ?thesis using rt3 [OF 3 lt ns] ih u by (simp del: of_nat_unat of_nat_add)
    qed
  qed
qed

lemma lone_surrogate: "utf8_decode (utf8_encode [0xD800]) = [0xFFFD]"
  by (simp add: cont_def)

lemma unat_u16_of: "n < 65536 \<Longrightarrow> unat (of_nat n :: 16 word) = n"
  by (simp add: unat_of_nat)

lemma hex_val_digit: "n < 16 \<Longrightarrow> hex_val (hex_digit n) = Some n"
proof -
  assume n: "n < 16"
  show ?thesis
  proof (cases "n < 10")
    case True
    then have "unat (of_nat (48 + n) :: 16 word) = 48 + n" by (intro unat_u16_of) simp
    then show ?thesis using True by (simp add: hex_val_def hex_digit_def del: of_nat_add)
  next
    case False
    then have "unat (of_nat (87 + n) :: 16 word) = 87 + n" using n by (intro unat_u16_of) simp
    then show ?thesis using False n by (simp add: hex_val_def hex_digit_def del: of_nat_add)
  qed
qed

lemma hex_digit_not_colon: "n < 16 \<Longrightarrow> hex_digit n \<noteq> 0x3A"
  using hex_val_digit [of n] by (auto simp: hex_val_def)

lemma byte_digits: "unat (b :: byte) div 16 < 16" "unat b mod 16 < 16"
proof -
  have "unat b < 256" using unsigned_less [of b, where 'a=nat] by simp
  then show "unat b div 16 < 16" by simp
  show "unat b mod 16 < 16" by simp
qed

lemma hex_roundtrip: "hex_decode (hex_encode bs) = bs"
proof (induction bs)
  case Nil
  then show ?case by (simp add: hex_encode_def)
next
  case (Cons b bs)
  have "of_nat (unat b div 16 * 16 + unat b mod 16) = b"
    by (simp only: div_mult_mod_eq, simp)
  then show ?case
    using Cons by (simp add: hex_encode_def hex_val_digit byte_digits del: of_nat_add of_nat_mult)
qed

lemma colon_notin_hex: "0x3A \<notin> set (hex_encode bs)"
  by (induction bs) (auto simp: hex_encode_def hex_digit_not_colon byte_digits)

lemma length_hex_encode: "length (hex_encode bs) = 2 * length bs"
  by (induction bs) (simp_all add: hex_encode_def)

lemma split_on_none: "sep \<notin> set b \<Longrightarrow> split_on sep b = [b]"
  by (induction b) auto

lemma split_on_first: "sep \<notin> set a \<Longrightarrow> split_on sep (a @ sep # b) = a # split_on sep b"
  by (induction a) auto

lemma pad_len_lin: "(L::nat) = a * 16 + r \<Longrightarrow> r < 16 \<Longrightarrow> L + (16 - r) = (a + 1) * 16"
  by simp

lemma pad_len: "(length m + (16 - length m mod 16)) mod 16 = 0"
proof -
  have "length m + (16 - length m mod 16) = (length m div 16 + 1) * 16"
    by (rule pad_len_lin) simp_all
  then show ?thesis by simp
qed

lemma pkcs7_roundtrip: "pkcs7_unpad (pkcs7_pad m) = Some m"
proof -
  define n where "n = 16 - length m mod 16"
  have n: "0 < n" "n \<le> 16" by (simp_all add: n_def)
  have un: "unat (of_nat n :: byte) = n" by (rule unat_byte) (use n in simp)
  have l: "last (m @ replicate n (of_nat n :: byte)) = of_nat n" using n by simp
  have len: "(length m + n) mod 16 = 0"
    using pad_len [of m] by (simp add: n_def)
  show ?thesis
    unfolding pkcs7_pad_def pkcs7_unpad_def Let_def n_def [symmetric]
    using n by (simp add: l un len del: last_append last_replicate)
qed

lemma mask_ok: "mask_decipheriv key iv (mask_cipheriv key iv m) = Some m"
proof -
  have "(\<lambda>b. b XOR k) \<circ> (\<lambda>b. b XOR k) = id" for k :: byte
    by (rule ext) (simp add: xor.assoc)
  then show ?thesis
    by (simp add: mask_decipheriv_def mask_cipheriv_def pkcs7_roundtrip)
qed

lemma decrypt_envelope:
  assumes "length (hex_decode (ENCRYPTION_KEY env)) = 32" "length iv = 16"
  shows "decryptMessage env (hex_encode iv @ 0x3A # hex_encode c) =
         (case decipheriv env (hex_decode (ENCRYPTION_KEY env)) iv c of
            None \<Rightarrow> Inl FailedToDecrypt | Some d \<Rightarrow> Inr (utf8_decode d))"
proof -
  have "split_on 0x3A (hex_encode iv @ 0x3A # hex_encode c) = [hex_encode iv, hex_encode c]"
    by (simp add: split_on_first split_on_none colon_notin_hex)
  then show ?thesis
    using assms by (simp add: decryptMessage_def hex_roundtrip)
qed

lemma replicate_numeral: "replicate (numeral k) x = x # replicate (pred_numeral k) x"
  by (simp add: numeral_eq_Suc)

lemma demo_key_length: "length (hex_decode (ENCRYPTION_KEY demo_crypto)) = 32"
  by (simp add: demo_crypto_def demo_key_def js_def hex_val_def)

lemma demo_cipher_ok: "cipher_ok demo_crypto"
  by (simp add: cipher_ok_def demo_crypto_def mask_ok)

lemma demo_iv_length: "length demo_iv = 16"
  by (simp add: demo_iv_def)

lemma encrypt_hello:
  "encryptMessage demo_crypto demo_iv (js ''hello'') =
     Inr (js ''101112131415161718191a1b1c1d1e1f:78757c7c7f1b1b1b1b1b1b1b1b1b1b1b'')"
  by (simp add: encryptMessage_def demo_crypto_def demo_key_def demo_iv_def js_def hex_val_def
      hex_encode_def hex_digit_def mask_cipheriv_def pkcs7_pad_def first_byte_def
      replicate_numeral)

section \<open>Properties of the store operations\<close>

lemma fold_set_add: "set (fold set_add xs acc) = set acc \<union> set xs"
  by (induction xs arbitrary: acc) (auto simp: set_add_def)

lemma fold_set_add_distinct: "distinct acc \<Longrightarrow> distinct (fold set_add xs acc)"
  by (induction xs arbitrary: acc) (auto simp: set_add_def)

lemma set_js_set: "set (js_set xs) = set xs"
  by (simp add: js_set_def fold_set_add)

lemma distinct_js_set: "distinct (js_set xs)"
  by (simp add: js_set_def fold_set_add_distinct)

lemma js_set_empty_iff: "js_set xs = [] \<longleftrightarrow> xs = []"
  using set_js_set [of xs] by (metis set_empty)

lemma decrypt_hello_fails: "decryptMessage env (js ''hello'') = Inl FailedToDecrypt"
  by (simp add: decryptMessage_def js_def hex_val_def)

lemma hello_nonempty: "js ''hello'' \<noteq> []"
  by (simp add: js_def)

lemma find_append:
  "find P (xs @ ys) = (case find P xs of None \<Rightarrow> find P ys | Some x \<Rightarrow> Some x)"
  by (induction xs) auto

lemma decrypt_sealed_hello:
  "decryptMessage demo_crypto
     (js ''101112131415161718191a1b1c1d1e1f:78757c7c7f1b1b1b1b1b1b1b1b1b1b1b'') = Inr (js ''hello'')"
  by (simp add: decryptMessage_def demo_crypto_def demo_key_def
      js_def hex_val_def mask_decipheriv_def pkcs7_unpad_def first_byte_def replicate_numeral)

lemma length_page:
  "length (if lim < length (take (Suc lim) xs) then butlast (take (Suc lim) xs) else take (Suc lim) xs) =
   min lim (length xs)"
  by (auto simp: min_def)

section \<open>What saving and the group handlers come to\<close>

lemma find_SomeD: "find P xs = Some x \<Longrightarrow> P x \<and> x \<in> set xs"
  by (induction xs) (auto split: if_splits)

lemma arrayLimit_never: "\<not> arrayLimit val"
  by (simp add: arrayLimit_def js_length_def)

lemma validate_participants: "validate c \<Longrightarrow> participants c = []"
  by (cases "participants c") (simp_all add: validate_def arrayLimit_never)

lemma save_loaded_rejected:
  "participants c \<noteq> [] \<Longrightarrow> save_loaded now c s = Inl ValidationError"
  using validate_participants [of c] by (auto simp: save_loaded_def)

lemma save_new_rejected:
  "participants c \<noteq> [] \<Longrightarrow> save_new now c s = Inl ValidationError"
  using validate_participants [of c] by (auto simp: save_new_def)

lemma leaveGroup_result:
  "leaveGroup now s cid userId =
     (case find (\<lambda>c. conv_id c = cid \<and> isGroup c \<and> userId \<in> set (participants c))
             (conversations s) of
        None \<Rightarrow>
          (Failure 404 ''Group conversation not found or you are not a participant'', s, [])
      | Some conversation \<Rightarrow> (Failure 500 ''Failed to leave group'', s, []))"
  by (simp add: leaveGroup_def admins_def split: option.splits)

lemma removeParticipant_result:
  "removeParticipantFromGroup now s cid participantId currentUserId =
     (case find (\<lambda>c. conv_id c = cid \<and> isGroup c \<and> currentUserId \<in> set (participants c))
             (conversations s) of
        None \<Rightarrow> (Failure 404 ''Conversation not found or access denied'', s, [])
      | Some conversation \<Rightarrow>
          if participantId \<notin> set (participants conversation)
          then (Failure 400 ''User is not a participant in this group'', s, [])
          else (Failure 500 ''Failed to remove participant from group'', s, []))"
  by (simp add: removeParticipantFromGroup_def admins_def split: option.splits)

lemma find_never: "find (\<lambda>c. False) xs = None"
  by (induction xs) auto



lemma createGroupConversation_result:
  "createGroupConversation now newId s groupName requested creatorId =
     (Failure 500 ''Failed to create group conversation'', s, [])"
  by (simp add: createGroupConversation_def Let_def save_new_rejected js_set_empty_iff)

lemma createGroup_result:
  "createGroup now newId s creatorId groupName requested = (Inl ValidationError, s)"
  by (simp add: createGroup_def Let_def save_new_rejected js_set_empty_iff)



lemma getConversationById_found:
  assumes "find (\<lambda>c. conv_id c = cid \<and> isGroup c \<and> u \<in> set (participants c)) (conversations s) = Some c"
  shows "\<exists>c'. getConversationById s cid u = Reply 200 c' \<and> conv_id c' = cid \<and>
              u \<in> set (participants c')"
proof -
  have "c \<in> set (conversations s)" "conv_id c = cid" "u \<in> set (participants c)"
    using assms by (auto dest: find_SomeD)
  then have "find (\<lambda>c. conv_id c = cid \<and> u \<in> set (participants c)) (conversations s) \<noteq> None"
    by (auto simp: find_None_iff)
  then obtain c' where
    f: "find (\<lambda>c. conv_id c = cid \<and> u \<in> set (participants c)) (conversations s) = Some c'"
    by auto
  then show ?thesis using find_SomeD [OF f] by (simp add: getConversationById_def)
qed

section \<open>Properties of the page query\<close>

lemma sorted_uminus_rev: "sorted (zs :: int list) \<Longrightarrow> sorted (map uminus (rev zs))"
  by (simp add: sorted_wrt_map sorted_wrt_rev rev_map [symmetric])

lemma newest_first:
  assumes "distinct (map createdAt xs)"
  shows "sort_key (\<lambda>m. - createdAt m) xs = rev (sort_key createdAt xs)"
proof (rule sort_key_inj_key_eq)
  show "mset xs = mset (rev (sort_key createdAt xs))" by simp
  have "inj_on createdAt (set xs)" using assms by (simp add: distinct_map)
  then show "inj_on (\<lambda>m. - createdAt m) (set xs)" by (auto simp: inj_on_def)
  have "sorted (map createdAt (sort_key createdAt xs))" by simp
  then have "sorted (map uminus (rev (map createdAt (sort_key createdAt xs))))"
    by (rule sorted_uminus_rev)
  then show "sorted (map (\<lambda>m. - createdAt m) (rev (sort_key createdAt xs)))"
    by (simp add: rev_map o_def)
qed

lemma strictly_sorted_prefix:
  fixes f :: "'a \<Rightarrow> int"
  assumes "sorted (map f xs)" and "distinct (map f xs)" and "i < length xs"
  shows "filter (\<lambda>x. f x < f (xs ! i)) xs = take i xs"
proof -
  have strict: "sorted_wrt (<) (map f xs)" using assms(1,2) by (simp add: strict_sorted_iff)
  have lo: "\<forall>x \<in> set (take i xs). f x < f (xs ! i)"
  proof
    fix x assume "x \<in> set (take i xs)"
    then obtain j where j: "j < i" "j < length xs" "x = xs ! j"
      by (auto simp: in_set_conv_nth)
    have "map f xs ! j < map f xs ! i"
      using sorted_wrt_nth_less [OF strict, of j i] j assms(3) by simp
    then show "f x < f (xs ! i)" using j assms(3) by simp
  qed
  have hi: "\<forall>x \<in> set (drop i xs). \<not> f x < f (xs ! i)"
  proof
    fix x assume "x \<in> set (drop i xs)"
    then obtain k where "k < length xs - i" "x = xs ! (i + k)"
      by (auto simp: in_set_conv_nth)
    then have k: "i + k < length xs" "x = xs ! (i + k)" by simp_all
    have "map f xs ! i \<le> map f xs ! (i + k)"
      using sorted_nth_mono [OF assms(1), of i "i + k"] k by simp
    then show "\<not> f x < f (xs ! i)" using k assms(3) by simp
  qed
  have "filter (\<lambda>x. f x < f (xs ! i)) xs =
        filter (\<lambda>x. f x < f (xs ! i)) (take i xs) @ filter (\<lambda>x. f x < f (xs ! i)) (drop i xs)"
    by (metis append_take_drop_id filter_append)
  also have "\<dots> = take i xs" using lo hi by (simp add: filter_id_conv)
  finally show ?thesis .
qed

lemma matching_conversation:
  "matching s cid before = filter (older_than before) (matching s cid None)"
  by (auto simp: matching_def older_than_def intro!: filter_cong)

lemma distinct_matching:
  assumes "distinct (map createdAt (matching s cid None))"
  shows "distinct (map createdAt (matching s cid before))"
  unfolding matching_conversation [of s cid before]
  using assms by (rule distinct_map_filter)

lemma stored_page:
  assumes "distinct (map createdAt (matching s cid None))"
  shows "rev (take L (find_messages s cid before (L + 1))) =
         drop (length (matching s cid before) - L) (sort_key createdAt (matching s cid before))"
proof -
  have "take L (find_messages s cid before (L + 1)) =
        take L (rev (sort_key createdAt (matching s cid before)))"
    by (simp add: find_messages_def newest_first [OF distinct_matching [OF assms]])
  then show ?thesis by (simp add: rev_take)
qed


lemma distinct_sorted_times:
  assumes "distinct (map createdAt xs)"
  shows "distinct (map createdAt (sort_key createdAt xs))"
proof -
  have "mset (map createdAt (sort_key createdAt xs)) = mset (map createdAt xs)" by simp
  then show ?thesis using assms mset_eq_imp_distinct_iff by blast
qed

lemma getMessages_ascending:
  assumes "find (\<lambda>c. conv_id c = cid \<and> userId \<in> set (participants c)) (conversations s) = Some c"
    and "distinct (map createdAt (matching s cid None))"
  shows "getMessages env s cid (Some L) before userId =
     Reply 200
       (map (decryptedMessage env)
          (drop (length (matching s cid before) - L) (sort_key createdAt (matching s cid before))),
        L < length (matching s cid before))"
  using getMessages_page [OF assms(1), of env L before] stored_page [OF assms(2), of L before]
  by (simp add: rev_map)

lemma follow_cursors_all:
  assumes auth: "find (\<lambda>c. conv_id c = cid \<and> userId \<in> set (participants c)) (conversations s) = Some c"
    and d: "distinct (map createdAt (matching s cid None))"
    and L: "1 \<le> L"
  shows "follow_cursors env s cid L userId before =
         map (decryptedMessage env) (sort_key createdAt (matching s cid before))"
proof (induction "length (matching s cid before)" arbitrary: before rule: less_induct)
  case less
  let ?M = "matching s cid before"
  let ?A = "sort_key createdAt ?M"
  let ?n = "length ?M"
  let ?dec = "decryptedMessage env"
  have g: "getMessages env s cid (Some L) before userId =
      Reply 200 (map ?dec (drop (?n - L) ?A), L < ?n)"
    by (rule getMessages_ascending [OF auth d])
  show ?case
  proof (cases "L < ?n")
    case True
    have i: "?n - L < length ?A" using True L by simp
    have ne: "map ?dec (drop (?n - L) ?A) \<noteq> []" using i by simp
    have hd: "createdAt (hd (map ?dec (drop (?n - L) ?A))) = createdAt (?A ! (?n - L))"
      using i by (simp add: hd_map hd_drop_conv_nth)
    have "?A ! (?n - L) \<in> set ?A" using i by (rule nth_mem)
    then have in_m: "?A ! (?n - L) \<in> set ?M" by simp
    have narrow: "matching s cid (Some (createdAt (?A ! (?n - L)))) =
        filter (\<lambda>m. createdAt m < createdAt (?A ! (?n - L))) ?M"
      by (rule matching_narrow [OF in_m])
    have smaller: "length (matching s cid (Some (createdAt (?A ! (?n - L))))) < ?n"
      unfolding narrow by (rule length_filter_less [OF in_m]) simp
    have "sort_key createdAt (matching s cid (Some (createdAt (?A ! (?n - L))))) =
        filter (\<lambda>m. createdAt m < createdAt (?A ! (?n - L))) ?A"
      unfolding narrow by (simp add: filter_sort)
    also have "\<dots> = take (?n - L) ?A"
      by (rule strictly_sorted_prefix [OF _ distinct_sorted_times [OF distinct_matching [OF d]] i])
        simp
    finally have older: "sort_key createdAt (matching s cid (Some (createdAt (?A ! (?n - L))))) =
        take (?n - L) ?A" .
    have ih: "follow_cursors env s cid L userId (Some (createdAt (?A ! (?n - L)))) =
        map ?dec (take (?n - L) ?A)"
      using less [OF smaller] older by simp
    have c: "L < ?n \<and> map ?dec (drop (?n - L) ?A) \<noteq> []" using True ne by blast
    have "follow_cursors env s cid L userId before =
        follow_cursors env s cid L userId (Some (createdAt (?A ! (?n - L)))) @
        map ?dec (drop (?n - L) ?A)"
      by (subst follow_cursors.simps) (simp only: g response.case prod.case c simp_thms if_True hd)
    also have "\<dots> = map ?dec (take (?n - L) ?A) @ map ?dec (drop (?n - L) ?A)"
      by (simp only: ih)
    also have "\<dots> = map ?dec (take (?n - L) ?A @ drop (?n - L) ?A)"
      by (simp only: map_append)
    also have "\<dots> = map ?dec ?A"
      by (simp only: append_take_drop_id)
    finally show ?thesis .
  next
    case False
    then have "follow_cursors env s cid L userId before = map ?dec (drop (?n - L) ?A)"
      by (subst follow_cursors.simps) (simp add: g)
    then show ?thesis using False by simp
  qed
qed

lemma hasMore_iff_older:
  assumes d: "distinct (map createdAt (matching s cid None))"
  shows "L < length (matching s cid before) \<longleftrightarrow>
         (\<exists>m \<in> set (matching s cid before).
            \<forall>p \<in> set (take L (find_messages s cid before (L + 1))). createdAt m < createdAt p)"
proof -
  let ?M = "matching s cid before"
  let ?A = "sort_key createdAt ?M"
  let ?n = "length ?M"
  have page: "set (take L (find_messages s cid before (L + 1))) = set (drop (?n - L) ?A)"
    using stored_page [OF d, of L before] by (metis set_rev)
  have strict: "sorted_wrt (<) (map createdAt ?A)"
    using distinct_sorted_times [OF distinct_matching [OF d, of before]]
    by (simp add: strict_sorted_iff)
  show ?thesis
  proof
    assume more: "L < ?n"
    then have z: "0 < length ?A" by (simp del: length_greater_0_conv)
    have "?A ! 0 \<in> set ?A" using z by (rule nth_mem)
    then have in_m: "?A ! 0 \<in> set ?M" by simp
    have "createdAt (?A ! 0) < createdAt p" if "p \<in> set (drop (?n - L) ?A)" for p
    proof -
      from that obtain k where "k < length ?A - (?n - L)" "p = ?A ! (?n - L + k)"
        by (auto simp: in_set_conv_nth)
      then have k: "?n - L + k < length ?A" "p = ?A ! (?n - L + k)" "0 < ?n - L + k"
        using more by simp_all
      have "map createdAt ?A ! 0 < map createdAt ?A ! (?n - L + k)"
        using sorted_wrt_nth_less [OF strict, of 0 "?n - L + k"] k by simp
      then show ?thesis using k z by simp
    qed
    then show "\<exists>m \<in> set ?M.
        \<forall>p \<in> set (take L (find_messages s cid before (L + 1))). createdAt m < createdAt p"
      using in_m page by blast
  next
    assume "\<exists>m \<in> set ?M.
        \<forall>p \<in> set (take L (find_messages s cid before (L + 1))). createdAt m < createdAt p"
    then obtain m where m: "m \<in> set ?M" "\<forall>p \<in> set (drop (?n - L) ?A). createdAt m < createdAt p"
      using page by auto
    show "L < ?n"
    proof (rule ccontr)
      assume "\<not> L < ?n"
      then have "drop (?n - L) ?A = ?A" by simp
      then have "m \<in> set (drop (?n - L) ?A)" using m(1) by simp
      then show False using m(2) by auto
    qed
  qed
qed

lemma newest_first_sorted:
  "sorted (map (\<lambda>m. - createdAt m) (find_messages s cid before n))"
proof -
  have "sorted (take n (map (\<lambda>m. - createdAt m)
      (sort_key (\<lambda>m. - createdAt m) (matching s cid before))))"
    by (rule sorted_wrt_take) simp
  then show ?thesis by (simp add: find_messages_def take_map)
qed

lemma page_ascending:
  "sorted (map createdAt (rev (take L (find_messages s cid before n))))"
proof -
  have "sorted (take L (map (\<lambda>m. - createdAt m) (find_messages s cid before n)))"
    by (rule sorted_wrt_take) (rule newest_first_sorted)
  then have "sorted_wrt (\<lambda>a b. - createdAt a \<le> - createdAt b) (take L (find_messages s cid before n))"
    by (simp add: take_map sorted_wrt_map)
  then have "sorted_wrt (\<lambda>a b. createdAt a \<le> createdAt b) (rev (take L (find_messages s cid before n)))"
    by (simp add: sorted_wrt_rev)
  then show ?thesis by (simp add: sorted_wrt_map)
qed

lemma find_messages_matching:
  "m \<in> set (find_messages s cid before n) \<Longrightarrow> conversationId m = cid \<and> older_than before m"
proof -
  assume "m \<in> set (find_messages s cid before n)"
  then have "m \<in> set (sort_key (\<lambda>m. - createdAt m) (matching s cid before))"
    unfolding find_messages_def by (rule in_set_takeD)
  then show ?thesis by (simp add: matching_def)
qed

section \<open>The claims\<close>

text \<open>
  C1. The claim fails on the HTTP path. Whenever sendMessage finds the conversation of
  sender and recipient and the content is not empty, it stores the message with the
  caller's content as it came and \<open>isEncrypted\<close> true: the handler's comment expects a
  pre-save hook to encrypt it, and the message model registers none. The handler then
  answers 500 and emits nothing, because the save of the conversation is rejected; the
  message stays stored. The socket handler stores the envelope that encryptMessage
  produces and sends the plaintext to the recipient.
\<close>

theorem sendMessage_persists_plaintext:
  "(find (\<lambda>c. conv_id c = cid \<and> senderId \<in> set (participants c) \<and>
               recipientId \<in> set (participants c)) (conversations s) = Some conversation \<and>
    body \<noteq> [] \<longrightarrow>
      sendMessage now newId ip agent s cid recipientId body senderId =
        (Failure 500 ''Failed to send message'',
         s\<lparr>messages := messages s @
             [\<lparr>msg_id = newId, conversationId = cid, sender = senderId,
               recipient = recipientId, content = body, isEncrypted = True,
               read = False, createdAt = now, msg_updatedAt = now, timestamp = now,
               ipAddress = ip, userAgent = agent\<rparr>]\<rparr>,
         [])) \<and>
   (body \<noteq> [] \<and> recipientId \<noteq> [] \<and> cid \<noteq> [] \<and> encryptMessage env iv body = Inr envelope \<longrightarrow>
      send_message env iv now newId ip agent s senderId cid recipientId body =
        (s\<lparr>messages := messages s @
             [\<lparr>msg_id = newId, conversationId = cid, sender = senderId,
               recipient = recipientId, content = envelope, isEncrypted = True,
               read = False, createdAt = now, msg_updatedAt = now, timestamp = now,
               ipAddress = ip, userAgent = agent\<rparr>]\<rparr>,
         [(Room recipientId, ReceiveMessage
             \<lparr>msg_id = newId, conversationId = cid, sender = senderId,
               recipient = recipientId, content = body, isEncrypted = True,
               read = False, createdAt = now, msg_updatedAt = now, timestamp = now,
               ipAddress = ip, userAgent = agent\<rparr>),
          (Caller, MessageSent
             \<lparr>msg_id = newId, conversationId = cid, sender = senderId,
               recipient = recipientId, content = body, isEncrypted = True,
               read = False, createdAt = now, msg_updatedAt = now, timestamp = now,
               ipAddress = ip, userAgent = agent\<rparr>)]))"
proof (intro conjI impI)
  assume a: "find (\<lambda>c. conv_id c = cid \<and> senderId \<in> set (participants c) \<and>
               recipientId \<in> set (participants c)) (conversations s) = Some conversation \<and>
    body \<noteq> []"
  then have "senderId \<in> set (participants conversation)" by (auto dest: find_SomeD)
  then have "participants (conversation\<lparr>updatedAt := now\<rparr>) \<noteq> []" by auto
  then have "save_loaded now (conversation\<lparr>updatedAt := now\<rparr>) s' = Inl ValidationError" for s'
    by (rule save_loaded_rejected)
  then show "sendMessage now newId ip agent s cid recipientId body senderId =
        (Failure 500 ''Failed to send message'',
         s\<lparr>messages := messages s @
             [\<lparr>msg_id = newId, conversationId = cid, sender = senderId,
               recipient = recipientId, content = body, isEncrypted = True,
               read = False, createdAt = now, msg_updatedAt = now, timestamp = now,
               ipAddress = ip, userAgent = agent\<rparr>]\<rparr>,
         [])"
    using a by (simp add: sendMessage_def Let_def)
next
  assume "body \<noteq> [] \<and> recipientId \<noteq> [] \<and> cid \<noteq> [] \<and> encryptMessage env iv body = Inr envelope"
  then show "send_message env iv now newId ip agent s senderId cid recipientId body =
        (s\<lparr>messages := messages s @
             [\<lparr>msg_id = newId, conversationId = cid, sender = senderId,
               recipient = recipientId, content = envelope, isEncrypted = True,
               read = False, createdAt = now, msg_updatedAt = now, timestamp = now,
               ipAddress = ip, userAgent = agent\<rparr>]\<rparr>,
         [(Room recipientId, ReceiveMessage
             \<lparr>msg_id = newId, conversationId = cid, sender = senderId,
               recipient = recipientId, content = body, isEncrypted = True,
               read = False, createdAt = now, msg_updatedAt = now, timestamp = now,
               ipAddress = ip, userAgent = agent\<rparr>),
          (Caller, MessageSent
             \<lparr>msg_id = newId, conversationId = cid, sender = senderId,
               recipient = recipientId, content = body, isEncrypted = True,
               read = False, createdAt = now, msg_updatedAt = now, timestamp = now,
               ipAddress = ip, userAgent = agent\<rparr>)])"
    by (simp add: send_message_def Let_def)
qed

theorem sendMessage_persists_plaintext_witness:
  "find (\<lambda>c. conv_id c = ''c1'' \<and> ''A'' \<in> set (participants c) \<and> ''B'' \<in> set (participants c))
     (conversations \<lparr>conversations = [chat_ab], messages = []\<rparr>) = Some chat_ab \<and>
   js ''hello'' \<noteq> [] \<and>
   sendMessage 1000 ''m1'' ''10.0.0.1'' ''agent'' \<lparr>conversations = [chat_ab], messages = []\<rparr>
     ''c1'' ''B'' (js ''hello'') ''A'' =
     (Failure 500 ''Failed to send message'',
      \<lparr>conversations = [chat_ab], messages = [plain_hello]\<rparr>, []) \<and>
   content plain_hello = js ''hello'' \<and> isEncrypted plain_hello \<and>
   encryptMessage demo_crypto demo_iv (js ''hello'') =
     Inr (js ''101112131415161718191a1b1c1d1e1f:78757c7c7f1b1b1b1b1b1b1b1b1b1b1b'') \<and>
   getMessages demo_crypto \<lparr>conversations = [chat_ab], messages = [plain_hello]\<rparr>
     ''c1'' None None ''B'' =
     Reply 200 ([plain_hello\<lparr>content := js ''[Message decryption failed]''\<rparr>], False) \<and>
   fst (send_message demo_crypto demo_iv 2000 ''m2'' ''10.0.0.2'' ''agent''
     \<lparr>conversations = [chat_ab], messages = []\<rparr> ''B'' ''c1'' ''A'' (js ''hello'')) =
     \<lparr>conversations = [chat_ab], messages = [sealed_hello]\<rparr>"
proof -
  let ?s = "\<lparr>conversations = [chat_ab], messages = []\<rparr>"
  have f: "find (\<lambda>c. conv_id c = ''c1'' \<and> ''A'' \<in> set (participants c) \<and>
      ''B'' \<in> set (participants c)) (conversations ?s) = Some chat_ab"
    by (simp add: chat_ab_def)
  have n: "js ''hello'' \<noteq> []" by (rule hello_nonempty)
  have fn: "find (\<lambda>c. conv_id c = ''c1'' \<and> ''A'' \<in> set (participants c) \<and>
      ''B'' \<in> set (participants c)) (conversations ?s) = Some chat_ab \<and> js ''hello'' \<noteq> []"
    using f n by simp
  have e: "encryptMessage demo_crypto demo_iv (js ''hello'') =
      Inr (js ''101112131415161718191a1b1c1d1e1f:78757c7c7f1b1b1b1b1b1b1b1b1b1b1b'')"
    by (rule encrypt_hello)
  have en: "js ''hello'' \<noteq> [] \<and> ''A'' \<noteq> [] \<and> ''c1'' \<noteq> [] \<and>
      encryptMessage demo_crypto demo_iv (js ''hello'') =
      Inr (js ''101112131415161718191a1b1c1d1e1f:78757c7c7f1b1b1b1b1b1b1b1b1b1b1b'')"
    using n e by simp
  have h: "sendMessage 1000 ''m1'' ''10.0.0.1'' ''agent'' ?s ''c1'' ''B'' (js ''hello'') ''A'' =
      (Failure 500 ''Failed to send message'',
       \<lparr>conversations = [chat_ab], messages = [plain_hello]\<rparr>, [])"
    using sendMessage_persists_plaintext [where s = ?s and cid = "''c1''" and senderId = "''A''"
        and recipientId = "''B''" and conversation = chat_ab and body = "js ''hello''"
        and now = 1000 and newId = "''m1''" and ip = "''10.0.0.1''" and agent = "''agent''",
        THEN conjunct1, THEN mp, OF fn]
    by (simp add: plain_hello_def)
  have c: "content plain_hello = js ''hello''" by (simp add: plain_hello_def)
  have i: "isEncrypted plain_hello" by (simp add: plain_hello_def)
  have g: "getMessages demo_crypto \<lparr>conversations = [chat_ab], messages = [plain_hello]\<rparr>
      ''c1'' None None ''B'' =
      Reply 200 ([plain_hello\<lparr>content := js ''[Message decryption failed]''\<rparr>], False)"
    by (simp add: getMessages_def find_messages_def matching_def older_than_def
        decryptedMessage_def decrypt_hello_fails chat_ab_def plain_hello_def Let_def)
  have k: "fst (send_message demo_crypto demo_iv 2000 ''m2'' ''10.0.0.2'' ''agent'' ?s
      ''B'' ''c1'' ''A'' (js ''hello'')) =
      \<lparr>conversations = [chat_ab], messages = [sealed_hello]\<rparr>"
    using sendMessage_persists_plaintext [where s = ?s and cid = "''c1''" and senderId = "''B''"
        and recipientId = "''A''" and body = "js ''hello''" and env = demo_crypto
        and iv = demo_iv and now = 2000 and newId = "''m2''" and ip = "''10.0.0.2''"
        and agent = "''agent''"
        and envelope = "js ''101112131415161718191a1b1c1d1e1f:78757c7c7f1b1b1b1b1b1b1b1b1b1b1b''",
        THEN conjunct2, THEN mp, OF en]
    by (simp add: sealed_hello_def)
  show ?thesis by (intro conjI) fact+
qed



text \<open>
  C3. The claim fails: a participant of a group, the last one included, cannot leave or
  be removed. Whenever leaveGroup finds the group of the caller it answers 500, and so
  does removeParticipantFromGroup for every participant named, because both read
  \<^verbatim>\<open>conversation.admins\<close>, which no document has; the branch that deletes a group
  without participants is never reached. The store is left as it was, with the
  conversation and its messages, nothing is emitted, and getConversationById still
  answers 200 with a conversation of that id.
\<close>

theorem last_participant_stays:
  "find (\<lambda>c. conv_id c = cid \<and> isGroup c \<and> u \<in> set (participants c)) (conversations s) = Some c
   \<longrightarrow>
     leaveGroup now s cid u = (Failure 500 ''Failed to leave group'', s, []) \<and>
     (p \<in> set (participants c) \<longrightarrow>
        removeParticipantFromGroup now s cid p u =
          (Failure 500 ''Failed to remove participant from group'', s, [])) \<and>
     (\<exists>c'. getConversationById s cid u = Reply 200 c' \<and> conv_id c' = cid \<and>
            u \<in> set (participants c'))"
proof (intro conjI impI)
  assume f: "find (\<lambda>c. conv_id c = cid \<and> isGroup c \<and> u \<in> set (participants c)) (conversations s) =
      Some c"
  show "leaveGroup now s cid u = (Failure 500 ''Failed to leave group'', s, [])"
    by (simp add: leaveGroup_result f)
  show "\<exists>c'. getConversationById s cid u = Reply 200 c' \<and> conv_id c' = cid \<and>
            u \<in> set (participants c')"
    using f by (rule getConversationById_found)
  assume "p \<in> set (participants c)"
  then show "removeParticipantFromGroup now s cid p u =
          (Failure 500 ''Failed to remove participant from group'', s, [])"
    by (simp add: removeParticipant_result f)
qed

theorem last_participant_stays_witness:
  "find (\<lambda>c. conv_id c = ''g1'' \<and> isGroup c \<and> ''C'' \<in> set (participants c))
     (conversations
        \<lparr>conversations = [last_member_group],
         messages = [plain_hello\<lparr>conversationId := ''g1''\<rparr>]\<rparr>) = Some last_member_group \<and>
   participants last_member_group = [''C''] \<and>
   ''C'' \<in> set (participants last_member_group) \<and>
   leaveGroup 3000
     \<lparr>conversations = [last_member_group],
      messages = [plain_hello\<lparr>conversationId := ''g1''\<rparr>]\<rparr> ''g1'' ''C'' =
     (Failure 500 ''Failed to leave group'',
      \<lparr>conversations = [last_member_group],
       messages = [plain_hello\<lparr>conversationId := ''g1''\<rparr>]\<rparr>, []) \<and>
   removeParticipantFromGroup 3000
     \<lparr>conversations = [last_member_group],
      messages = [plain_hello\<lparr>conversationId := ''g1''\<rparr>]\<rparr> ''g1'' ''C'' ''C'' =
     (Failure 500 ''Failed to remove participant from group'',
      \<lparr>conversations = [last_member_group],
       messages = [plain_hello\<lparr>conversationId := ''g1''\<rparr>]\<rparr>, []) \<and>
   getConversationById
     \<lparr>conversations = [last_member_group],
      messages = [plain_hello\<lparr>conversationId := ''g1''\<rparr>]\<rparr> ''g1'' ''C'' =
     Reply 200 last_member_group"
proof -
  let ?s = "\<lparr>conversations = [last_member_group],
      messages = [plain_hello\<lparr>conversationId := ''g1''\<rparr>]\<rparr>"
  have f: "find (\<lambda>c. conv_id c = ''g1'' \<and> isGroup c \<and> ''C'' \<in> set (participants c))
      (conversations ?s) = Some last_member_group"
    by (simp add: last_member_group_def)
  have p: "participants last_member_group = [''C'']" by (simp add: last_member_group_def)
  have q: "''C'' \<in> set (participants last_member_group)" by (simp add: p)
  note stays = last_participant_stays [where s = ?s and cid = "''g1''" and u = "''C''"
      and p = "''C''" and now = 3000, THEN mp, OF f]
  have l: "leaveGroup 3000 ?s ''g1'' ''C'' = (Failure 500 ''Failed to leave group'', ?s, [])"
    using stays by (rule conjunct1)
  have r: "removeParticipantFromGroup 3000 ?s ''g1'' ''C'' ''C'' =
      (Failure 500 ''Failed to remove participant from group'', ?s, [])"
    using stays [THEN conjunct2, THEN conjunct1, THEN mp, OF q] .
  have g: "getConversationById ?s ''g1'' ''C'' = Reply 200 last_member_group"
    by (simp add: getConversationById_def last_member_group_def)
  show ?thesis by (intro conjI) fact+
qed

text \<open>
  C4 (as amended). Sending a message never resolves or creates a conversation. When no
  conversation with the given id holds both users, sendMessage answers 403, stores
  nothing and emits nothing. The socket handler leaves the conversations as they are;
  when a conversation with the given id holds both users, content, recipient and
  conversation id are not empty and the configured key has 32 bytes, it stores the
  message with the envelope of encryptMessage as content and emits receive_message
  with the plaintext content to the recipient's room and message_sent to the caller.
\<close>

theorem send_without_conversation:
  "(find (\<lambda>c. conv_id c = cid \<and> senderId \<in> set (participants c) \<and>
               recipientId \<in> set (participants c)) (conversations s) = None \<longrightarrow>
      sendMessage now newId ip agent s cid recipientId body senderId =
        (Failure 403 ''Not authorized to send message in this conversation'', s, [])) \<and>
   conversations (fst (send_message env iv now newId ip agent s senderId cid recipientId body)) =
     conversations s \<and>
   (find (\<lambda>c. conv_id c = cid \<and> senderId \<in> set (participants c) \<and>
               recipientId \<in> set (participants c)) (conversations s) = Some conversation \<and>
    body \<noteq> [] \<and> recipientId \<noteq> [] \<and> cid \<noteq> [] \<and>
    length (hex_decode (ENCRYPTION_KEY env)) = 32 \<and> length iv = 16 \<longrightarrow>
      (\<exists>envelope m.
         encryptMessage env iv body = Inr envelope \<and>
         m = \<lparr>msg_id = newId, conversationId = cid, sender = senderId,
              recipient = recipientId, content = envelope, isEncrypted = True,
              read = False, createdAt = now, msg_updatedAt = now, timestamp = now,
              ipAddress = ip, userAgent = agent\<rparr> \<and>
         send_message env iv now newId ip agent s senderId cid recipientId body =
           (s\<lparr>messages := messages s @ [m]\<rparr>,
            [(Room recipientId, ReceiveMessage (m\<lparr>content := body\<rparr>)),
             (Caller, MessageSent (m\<lparr>content := body\<rparr>))])))"
  by (simp add: sendMessage_def send_message_def encryptMessage_def Let_def split: sum.splits)

theorem send_without_conversation_witness:
  "find (\<lambda>c. conv_id c = ''c1'' \<and> ''A'' \<in> set (participants c) \<and> ''B'' \<in> set (participants c))
     (conversations empty_store) = None \<and>
   sendMessage 1000 ''m2'' ''10.0.0.2'' ''agent'' empty_store ''c1'' ''B'' (js ''hello'') ''A'' =
     (Failure 403 ''Not authorized to send message in this conversation'', empty_store, []) \<and>
   find (\<lambda>c. conv_id c = ''c1'' \<and> ''B'' \<in> set (participants c) \<and> ''A'' \<in> set (participants c))
     (conversations \<lparr>conversations = [chat_ab], messages = []\<rparr>) = Some chat_ab \<and>
   js ''hello'' \<noteq> [] \<and> length (hex_decode (ENCRYPTION_KEY demo_crypto)) = 32 \<and>
   length demo_iv = 16 \<and>
   send_message demo_crypto demo_iv 2000 ''m2'' ''10.0.0.2'' ''agent''
     \<lparr>conversations = [chat_ab], messages = []\<rparr> ''B'' ''c1'' ''A'' (js ''hello'') =
     (\<lparr>conversations = [chat_ab], messages = [sealed_hello]\<rparr>,
      [(Room ''A'', ReceiveMessage (sealed_hello\<lparr>content := js ''hello''\<rparr>)),
       (Caller, MessageSent (sealed_hello\<lparr>content := js ''hello''\<rparr>))])"
proof -
  let ?s = "\<lparr>conversations = [chat_ab], messages = []\<rparr>"
  have n: "find (\<lambda>c. conv_id c = ''c1'' \<and> ''A'' \<in> set (participants c) \<and>
      ''B'' \<in> set (participants c)) (conversations empty_store) = None"
    by (simp add: empty_store_def)
  have h: "sendMessage 1000 ''m2'' ''10.0.0.2'' ''agent'' empty_store ''c1'' ''B'' (js ''hello'')
      ''A'' =
      (Failure 403 ''Not authorized to send message in this conversation'', empty_store, [])"
    using send_without_conversation [where cid = "''c1''" and senderId = "''A''"
        and recipientId = "''B''" and s = empty_store and now = 1000 and newId = "''m2''"
        and ip = "''10.0.0.2''" and agent = "''agent''" and body = "js ''hello''",
        THEN conjunct1, THEN mp, OF n] .
  have f: "find (\<lambda>c. conv_id c = ''c1'' \<and> ''B'' \<in> set (participants c) \<and>
      ''A'' \<in> set (participants c)) (conversations ?s) = Some chat_ab"
    by (simp add: chat_ab_def)
  have b: "js ''hello'' \<noteq> []" by (rule hello_nonempty)
  have k: "length (hex_decode (ENCRYPTION_KEY demo_crypto)) = 32" by (rule demo_key_length)
  have v: "length demo_iv = 16" by (rule demo_iv_length)
  have pre: "find (\<lambda>c. conv_id c = ''c1'' \<and> ''B'' \<in> set (participants c) \<and>
      ''A'' \<in> set (participants c)) (conversations ?s) = Some chat_ab \<and>
      js ''hello'' \<noteq> [] \<and> ''A'' \<noteq> [] \<and> ''c1'' \<noteq> [] \<and>
      length (hex_decode (ENCRYPTION_KEY demo_crypto)) = 32 \<and> length demo_iv = 16"
    using f b k v by simp
  have e: "send_message demo_crypto demo_iv 2000 ''m2'' ''10.0.0.2'' ''agent'' ?s
      ''B'' ''c1'' ''A'' (js ''hello'') =
      (\<lparr>conversations = [chat_ab], messages = [sealed_hello]\<rparr>,
       [(Room ''A'', ReceiveMessage (sealed_hello\<lparr>content := js ''hello''\<rparr>)),
        (Caller, MessageSent (sealed_hello\<lparr>content := js ''hello''\<rparr>))])"
    using send_without_conversation [where cid = "''c1''" and senderId = "''B''"
        and recipientId = "''A''" and s = ?s and now = 2000 and newId = "''m2''"
        and ip = "''10.0.0.2''" and agent = "''agent''" and body = "js ''hello''"
        and env = demo_crypto and iv = demo_iv and conversation = chat_ab,
        THEN conjunct2, THEN conjunct2, THEN mp, OF pre]
    by (auto simp: encrypt_hello sealed_hello_def)
  show ?thesis by (intro conjI) fact+
qed

text \<open>
  C4 as stated fails: with no conversation stored, the HTTP send is refused and the
  socket send leaves the conversations empty.
\<close>

theorem send_creates_no_conversation:
  "sendMessage 1000 ''m1'' ''10.0.0.1'' ''agent'' empty_store ''c1'' ''B'' (js ''hello'') ''A'' =
     (Failure 403 ''Not authorized to send message in this conversation'', empty_store, []) \<and>
   conversations (fst (send_message demo_crypto demo_iv 1000 ''m1'' ''10.0.0.1'' ''agent''
     empty_store ''A'' ''c1'' ''B'' (js ''hello''))) = []"
  by (simp add: sendMessage_def send_message_def empty_store_def encrypt_hello
      hello_nonempty Let_def)

text \<open>
  C5 (as amended). For every well-formed plaintext (no unpaired surrogate), a key of 32
  bytes and a drawn IV of 16 bytes, encryptMessage succeeds and decryptMessage applied
  to its envelope returns the plaintext, for every cipher that meets its contract.
\<close>

theorem decrypt_encrypt_well_formed:
  assumes "cipher_ok env" and "length (hex_decode (ENCRYPTION_KEY env)) = 32"
    and "length iv = 16" and "isWellFormed p"
  shows "\<exists>c. encryptMessage env iv p = Inr c \<and> decryptMessage env c = Inr p"
proof -
  let ?key = "hex_decode (ENCRYPTION_KEY env)"
  let ?c = "hex_encode iv @ 0x3A # hex_encode (cipheriv env ?key iv (utf8_encode p))"
  have e: "encryptMessage env iv p = Inr ?c"
    using assms(2,3) by (simp add: encryptMessage_def)
  have "decipheriv env ?key iv (cipheriv env ?key iv (utf8_encode p)) = Some (utf8_encode p)"
    using assms(1-3) by (simp add: cipher_ok_def)
  then have "decryptMessage env ?c = Inr (utf8_decode (utf8_encode p))"
    using decrypt_envelope [OF assms(2,3)] by simp
  then have "decryptMessage env ?c = Inr p"
    using utf8_roundtrip [OF assms(4)] by simp
  with e show ?thesis by blast
qed

theorem decrypt_encrypt_well_formed_witness:
  "cipher_ok demo_crypto \<and> length (hex_decode (ENCRYPTION_KEY demo_crypto)) = 32 \<and>
   length demo_iv = 16 \<and> isWellFormed (js ''hello'') \<and>
   (\<exists>c. encryptMessage demo_crypto demo_iv (js ''hello'') = Inr c \<and>
        decryptMessage demo_crypto c = Inr (js ''hello''))"
proof -
  have wf: "isWellFormed (js ''hello'')" by (simp add: js_def)
  show ?thesis
    using decrypt_encrypt_well_formed [OF demo_cipher_ok demo_key_length demo_iv_length wf]
      demo_cipher_ok demo_key_length demo_iv_length wf
    by simp
qed

text \<open>
  C5 as stated fails on a string with an unpaired surrogate: the UTF-8 encoder replaces
  it by U+FFFD before the cipher sees it, so decryption returns U+FFFD.
\<close>

theorem decrypt_encrypt_lone_surrogate:
  "encryptMessage demo_crypto demo_iv [0xD800] =
     Inr (js ''101112131415161718191a1b1c1d1e1f:ffafad1d1d1d1d1d1d1d1d1d1d1d1d1d'') \<and>
   decryptMessage demo_crypto
     (js ''101112131415161718191a1b1c1d1e1f:ffafad1d1d1d1d1d1d1d1d1d1d1d1d1d'') = Inr [0xFFFD] \<and>
   [0xFFFD] \<noteq> [0xD800 :: 16 word]"
  by (simp add: encryptMessage_def decryptMessage_def demo_crypto_def demo_key_def demo_iv_def
      js_def hex_val_def hex_encode_def hex_digit_def mask_cipheriv_def mask_decipheriv_def
      pkcs7_pad_def pkcs7_unpad_def first_byte_def cont_def replicate_numeral)

text \<open>
  C6 (as amended). For a participant, every cursor and every limit L: the query fetches
  the L+1 newest messages of the conversation that are strictly earlier than the cursor
  (all of them when there are fewer), newest first; hasMore is reported exactly when
  more than L messages are earlier than the cursor; the page is the L newest of them in
  ascending order of creation. When the creation times of the conversation's messages
  are pairwise distinct, hasMore holds exactly when a message strictly older than the
  whole page exists, and for L of at least 1 following the cursors yields every message
  of the conversation exactly once, in chronological order.
\<close>

theorem getMessages_pagination:
  assumes "find (\<lambda>c. conv_id c = cid \<and> userId \<in> set (participants c)) (conversations s) =
           Some conversation"
  shows
    "length (find_messages s cid before (L + 1)) = min (L + 1) (length (matching s cid before)) \<and>
     sorted (map (\<lambda>m. - createdAt m) (find_messages s cid before (L + 1))) \<and>
     (\<forall>m \<in> set (find_messages s cid before (L + 1)). conversationId m = cid \<and> older_than before m) \<and>
     getMessages env s cid (Some L) before userId =
       Reply 200 (rev (map (decryptedMessage env) (take L (find_messages s cid before (L + 1)))),
                  L < length (matching s cid before)) \<and>
     sorted (map createdAt (rev (take L (find_messages s cid before (L + 1))))) \<and>
     (distinct (map createdAt (matching s cid None)) \<longrightarrow>
        (L < length (matching s cid before) \<longleftrightarrow>
         (\<exists>m \<in> set (matching s cid before).
            \<forall>p \<in> set (take L (find_messages s cid before (L + 1))). createdAt m < createdAt p))) \<and>
     (distinct (map createdAt (matching s cid None)) \<and> 1 \<le> L \<longrightarrow>
        follow_cursors env s cid L userId None =
          map (decryptedMessage env) (sort_key createdAt (matching s cid None)))"
proof (intro conjI impI ballI)
  show "length (find_messages s cid before (L + 1)) = min (L + 1) (length (matching s cid before))"
    by (simp add: find_messages_def min.commute)
  show "sorted (map (\<lambda>m. - createdAt m) (find_messages s cid before (L + 1)))"
    by (rule newest_first_sorted)
  show "getMessages env s cid (Some L) before userId =
       Reply 200 (rev (map (decryptedMessage env) (take L (find_messages s cid before (L + 1)))),
                  L < length (matching s cid before))"
    by (rule getMessages_page [OF assms])
  show "sorted (map createdAt (rev (take L (find_messages s cid before (L + 1)))))"
    by (rule page_ascending)
next
  fix m assume "m \<in> set (find_messages s cid before (L + 1))"
  then show "conversationId m = cid" "older_than before m"
    using find_messages_matching by blast+
next
  assume "distinct (map createdAt (matching s cid None))"
  then show "L < length (matching s cid before) \<longleftrightarrow>
         (\<exists>m \<in> set (matching s cid before).
            \<forall>p \<in> set (take L (find_messages s cid before (L + 1))). createdAt m < createdAt p)"
    by (rule hasMore_iff_older)
next
  assume "distinct (map createdAt (matching s cid None)) \<and> 1 \<le> L"
  then show "follow_cursors env s cid L userId None =
          map (decryptedMessage env) (sort_key createdAt (matching s cid None))"
    using follow_cursors_all [OF assms] by blast
qed

theorem getMessages_pagination_witness:
  "find (\<lambda>c. conv_id c = ''c1'' \<and> ''A'' \<in> set (participants c)) (conversations timeline) =
     Some chat_ab \<and>
   distinct (map createdAt (matching timeline ''c1'' None)) \<and>
   find_messages timeline ''c1'' None 3 = [memo ''n3'' 3000, memo ''n2'' 2000, memo ''n1'' 1000] \<and>
   getMessages demo_crypto timeline ''c1'' (Some 2) None ''A'' =
     Reply 200 ([memo ''n2'' 2000, memo ''n3'' 3000], True) \<and>
   getMessages demo_crypto timeline ''c1'' (Some 2) (Some 2000) ''A'' =
     Reply 200 ([memo ''n1'' 1000], False) \<and>
   follow_cursors demo_crypto timeline ''c1'' 2 ''A'' None =
     [memo ''n1'' 1000, memo ''n2'' 2000, memo ''n3'' 3000]"
proof -
  have f: "find (\<lambda>c. conv_id c = ''c1'' \<and> ''A'' \<in> set (participants c)) (conversations timeline) =
      Some chat_ab"
    by (simp add: timeline_def chat_ab_def)
  have m: "matching timeline ''c1'' None = [memo ''n1'' 1000, memo ''n3'' 3000, memo ''n2'' 2000]"
    by (simp add: timeline_def matching_def older_than_def memo_def)
  have m': "matching timeline ''c1'' (Some 2000) = [memo ''n1'' 1000]"
    by (simp add: timeline_def matching_def older_than_def memo_def)
  have d: "distinct (map createdAt (matching timeline ''c1'' None))"
    by (simp add: m memo_def)
  have plain: "decryptedMessage demo_crypto (memo i t) = memo i t" for i t
    by (simp add: decryptedMessage_def memo_def)
  have fm: "find_messages timeline ''c1'' None 3 =
      [memo ''n3'' 3000, memo ''n2'' 2000, memo ''n1'' 1000]"
    by (simp add: find_messages_def m) (simp add: memo_def)
  have fm': "find_messages timeline ''c1'' (Some 2000) 3 = [memo ''n1'' 1000]"
    by (simp add: find_messages_def m')
  note first = getMessages_pagination [OF f, where before = None and L = 2 and env = demo_crypto]
  note second = getMessages_pagination [OF f, where before = "Some 2000" and L = 2
      and env = demo_crypto]
  have g: "getMessages demo_crypto timeline ''c1'' (Some 2) None ''A'' =
      Reply 200 ([memo ''n2'' 2000, memo ''n3'' 3000], True)"
    using first [THEN conjunct2, THEN conjunct2, THEN conjunct2, THEN conjunct1]
    by (simp add: fm m plain)
  have g': "getMessages demo_crypto timeline ''c1'' (Some 2) (Some 2000) ''A'' =
      Reply 200 ([memo ''n1'' 1000], False)"
    using second [THEN conjunct2, THEN conjunct2, THEN conjunct2, THEN conjunct1]
    by (simp add: fm' m' plain)
  have "follow_cursors demo_crypto timeline ''c1'' 2 ''A'' None =
      map (decryptedMessage demo_crypto) (sort_key createdAt (matching timeline ''c1'' None))"
    using first [THEN conjunct2, THEN conjunct2, THEN conjunct2, THEN conjunct2, THEN conjunct2,
        THEN conjunct2] d
    by simp
  then have fc: "follow_cursors demo_crypto timeline ''c1'' 2 ''A'' None =
      [memo ''n1'' 1000, memo ''n2'' 2000, memo ''n3'' 3000]"
    by (simp add: m plain) (simp add: memo_def)
  show ?thesis by (intro conjI) fact+
qed

text \<open>
  C6 as stated fails when two messages share a creation time: with limit 1 the first
  page holds n2 and reports more, the cursor is n2's creation time, and the next page
  holds n1 only; n3, created in the same millisecond as n2, is never returned. On a
  conversation holding only n2 and n3, hasMore is reported although no strictly older
  message exists.
\<close>

theorem pagination_skips_same_instant:
  "getMessages demo_crypto same_instant ''c1'' (Some 1) None ''A'' =
     Reply 200 ([memo ''n2'' 2000], True) \<and>
   getMessages demo_crypto same_instant ''c1'' (Some 1) (Some 2000) ''A'' =
     Reply 200 ([memo ''n1'' 1000], False) \<and>
   follow_cursors demo_crypto same_instant ''c1'' 1 ''A'' None =
     [memo ''n1'' 1000, memo ''n2'' 2000] \<and>
   messages same_instant = [memo ''n1'' 1000, memo ''n2'' 2000, memo ''n3'' 2000] \<and>
   conversationId (memo ''n3'' 2000) = ''c1'' \<and>
   getMessages demo_crypto
     \<lparr>conversations = [chat_ab], messages = [memo ''n2'' 2000, memo ''n3'' 2000]\<rparr>
     ''c1'' (Some 1) None ''A'' = Reply 200 ([memo ''n2'' 2000], True)"
  by (simp add: same_instant_def chat_ab_def memo_def follow_cursors.simps getMessages_def
      find_messages_def matching_def older_than_def decryptedMessage_def Let_def)

text \<open>
  C7. For a participant the page fetch always answers 200 with the full page (as many
  messages as the limit, or all that match when there are fewer). Each returned message
  is the stored one with its content replaced on its own: by the plaintext where
  decryptMessage succeeds, by the marker ``[Message decryption failed]'' where it fails;
  no decryption failure reaches the caller.
\<close>

theorem getMessages_degrades_per_message:
  assumes "find (\<lambda>c. conv_id c = cid \<and> userId \<in> set (participants c)) (conversations s) =
           Some conversation"
  shows "\<exists>stored hasMore.
     getMessages env s cid limit before userId =
       Reply 200 (map (decryptedMessage env) stored, hasMore) \<and>
     length stored =
       min (case limit of None \<Rightarrow> 50 | Some l \<Rightarrow> l) (length (matching s cid before)) \<and>
     (\<forall>m \<in> set stored.
        m \<in> set (messages s) \<and> conversationId m = cid \<and>
        (\<not> isEncrypted m \<longrightarrow> decryptedMessage env m = m) \<and>
        (\<forall>plain. isEncrypted m \<and> decryptMessage env (content m) = Inr plain \<longrightarrow>
           decryptedMessage env m = m\<lparr>content := plain\<rparr>) \<and>
        (\<forall>error. isEncrypted m \<and> decryptMessage env (content m) = Inl error \<longrightarrow>
           decryptedMessage env m = m\<lparr>content := js ''[Message decryption failed]''\<rparr>))"
proof -
  define lim where "lim = (case limit of None \<Rightarrow> 50 | Some l \<Rightarrow> l)"
  define matched where "matched = matching s cid before"
  define found where "found = take (Suc lim) (sort_key (\<lambda>m. - createdAt m) matched)"
  define page where "page = (if lim < length found then butlast found else found)"
  have g: "getMessages env s cid limit before userId =
      Reply 200 (rev (map (decryptedMessage env) page), lim < length found)"
    using assms
    by (simp add: getMessages_def find_messages_def Let_def lim_def matched_def found_def page_def)
  have len: "length page = min lim (length matched)"
    unfolding page_def found_def using length_page [of lim "sort_key (\<lambda>m. - createdAt m) matched"]
    by simp
  have sub: "set page \<subseteq> set matched"
  proof -
    have "set page \<subseteq> set found"
      by (auto simp: page_def dest: in_set_butlastD)
    also have "\<dots> \<subseteq> set (sort_key (\<lambda>m. - createdAt m) matched)"
      unfolding found_def by (rule set_take_subset)
    finally show ?thesis by simp
  qed
  have each: "m \<in> set (messages s) \<and> conversationId m = cid \<and>
        (\<not> isEncrypted m \<longrightarrow> decryptedMessage env m = m) \<and>
        (\<forall>plain. isEncrypted m \<and> decryptMessage env (content m) = Inr plain \<longrightarrow>
           decryptedMessage env m = m\<lparr>content := plain\<rparr>) \<and>
        (\<forall>error. isEncrypted m \<and> decryptMessage env (content m) = Inl error \<longrightarrow>
           decryptedMessage env m = m\<lparr>content := js ''[Message decryption failed]''\<rparr>)"
    if "m \<in> set (rev page)" for m
    using that sub by (auto simp: matched_def matching_def decryptedMessage_def)
  show ?thesis
    apply (rule exI [of _ "rev page"])
    apply (rule exI [of _ "lim < length found"])
    using g len each by (simp add: rev_map lim_def matched_def)
qed

theorem getMessages_degrades_per_message_witness:
  "find (\<lambda>c. conv_id c = ''c1'' \<and> ''A'' \<in> set (participants c)) [chat_ab] = Some chat_ab \<and>
   decryptMessage demo_crypto (content plain_hello) = Inl FailedToDecrypt \<and>
   decryptMessage demo_crypto (content sealed_hello) = Inr (js ''hello'') \<and>
   getMessages demo_crypto \<lparr>conversations = [chat_ab], messages = [sealed_hello, plain_hello]\<rparr>
     ''c1'' None None ''A'' =
     Reply 200 ([plain_hello\<lparr>content := js ''[Message decryption failed]''\<rparr>,
                 sealed_hello\<lparr>content := js ''hello''\<rparr>], False)"
  using getMessages_degrades_per_message [where s = "\<lparr>conversations = [chat_ab],
      messages = [sealed_hello, plain_hello]\<rparr>" and cid = "''c1''" and userId = "''A''"
      and conversation = chat_ab and env = demo_crypto and limit = None and before = None]
  by (simp add: getMessages_def find_messages_def matching_def older_than_def
      decryptedMessage_def chat_ab_def plain_hello_def sealed_hello_def decrypt_hello_fails
      decrypt_sealed_hello)

text \<open>
  C8 (as amended). When no message with the given id has the caller as recipient,
  markAsRead answers 404 ``Message not found'' and the socket handler does nothing; the
  store is unchanged and nothing is emitted. When there is one, markAsRead sets its read
  flag, answers with the updated message and notifies the sender's room.
\<close>

theorem markAsRead_recipient_only:
  "(find (\<lambda>m. msg_id m = messageId \<and> recipient m = userId) (messages s) = None \<longrightarrow>
      markAsRead now s messageId userId = (Failure 404 ''Message not found'', s, []) \<and>
      message_read now s userId messageId = (s, [])) \<and>
   (\<forall>found. find (\<lambda>m. msg_id m = messageId \<and> recipient m = userId) (messages s) = Some found \<longrightarrow>
      markAsRead now s messageId userId =
        (Reply 200 (found\<lparr>read := True, msg_updatedAt := now\<rparr>),
         save_message (found\<lparr>read := True, msg_updatedAt := now\<rparr>) s,
         [(Room (sender found), MessageReadEvent messageId)]))"
proof (intro conjI impI allI)
  assume n: "find (\<lambda>m. msg_id m = messageId \<and> recipient m = userId) (messages s) = None"
  show "markAsRead now s messageId userId = (Failure 404 ''Message not found'', s, [])"
    using n by (simp add: markAsRead_def)
  show "message_read now s userId messageId = (s, [])"
  proof (cases "find (\<lambda>m. msg_id m = messageId) (messages s)")
    case None
    then show ?thesis by (simp add: message_read_def)
  next
    case (Some m)
    then have "m \<in> set (messages s)" "msg_id m = messageId"
      by (auto simp: find_Some_iff in_set_conv_nth)
    then have "recipient m \<noteq> userId" using n by (auto simp: find_None_iff)
    then show ?thesis using Some by (simp add: message_read_def)
  qed
next
  fix found
  assume "find (\<lambda>m. msg_id m = messageId \<and> recipient m = userId) (messages s) = Some found"
  then show "markAsRead now s messageId userId =
        (Reply 200 (found\<lparr>read := True, msg_updatedAt := now\<rparr>),
         save_message (found\<lparr>read := True, msg_updatedAt := now\<rparr>) s,
         [(Room (sender found), MessageReadEvent messageId)])"
    by (simp add: markAsRead_def Let_def)
qed

theorem markAsRead_recipient_only_witness:
  "find (\<lambda>m. msg_id m = ''m2'' \<and> recipient m = ''C'') [sealed_hello] = None \<and>
   markAsRead 3000 \<lparr>conversations = [chat_ab], messages = [sealed_hello]\<rparr> ''m2'' ''C'' =
     (Failure 404 ''Message not found'',
      \<lparr>conversations = [chat_ab], messages = [sealed_hello]\<rparr>, []) \<and>
   find (\<lambda>m. msg_id m = ''m2'' \<and> recipient m = ''A'') [sealed_hello] = Some sealed_hello \<and>
   markAsRead 3000 \<lparr>conversations = [chat_ab], messages = [sealed_hello]\<rparr> ''m2'' ''A'' =
     (Reply 200 (sealed_hello\<lparr>read := True, msg_updatedAt := 3000\<rparr>),
      \<lparr>conversations = [chat_ab],
       messages = [sealed_hello\<lparr>read := True, msg_updatedAt := 3000\<rparr>]\<rparr>,
      [(Room ''B'', MessageReadEvent ''m2'')])"
  using markAsRead_recipient_only [where s = "\<lparr>conversations = [chat_ab], messages = [sealed_hello]\<rparr>"
      and messageId = "''m2''" and userId = "''C''" and now = 3000]
    markAsRead_recipient_only [where s = "\<lparr>conversations = [chat_ab], messages = [sealed_hello]\<rparr>"
      and messageId = "''m2''" and userId = "''A''" and now = 3000]
  by (simp add: sealed_hello_def save_message_def)

text \<open>
  C8 as stated fails: a non-recipient gets the answer of a missing message (404), not
  the 403 the controller gives where it refuses for lack of authorization, and the
  socket handler gives no answer at all.
\<close>

theorem markAsRead_non_recipient_not_found:
  "markAsRead 3000 \<lparr>conversations = [chat_ab], messages = [sealed_hello]\<rparr> ''m2'' ''C'' =
     (Failure 404 ''Message not found'',
      \<lparr>conversations = [chat_ab], messages = [sealed_hello]\<rparr>, []) \<and>
   markAsRead 3000 \<lparr>conversations = [chat_ab], messages = [sealed_hello]\<rparr> ''m9'' ''C'' =
     (Failure 404 ''Message not found'',
      \<lparr>conversations = [chat_ab], messages = [sealed_hello]\<rparr>, []) \<and>
   message_read 3000 \<lparr>conversations = [chat_ab], messages = [sealed_hello]\<rparr> ''C'' ''m2'' =
     (\<lparr>conversations = [chat_ab], messages = [sealed_hello]\<rparr>, []) \<and>
   getMessages demo_crypto \<lparr>conversations = [chat_ab], messages = [sealed_hello]\<rparr>
     ''c1'' None None ''C'' = Failure 403 ''Not authorized to view these messages''"
  by (simp add: markAsRead_def message_read_def getMessages_def chat_ab_def sealed_hello_def)

text \<open>
  C9. The claim fails: findOrCreateDirect cannot create a conversation. When no direct
  conversation of the two users is found, its save of the new one is rejected by
  validation; the call throws, the store is unchanged, and a second call in either
  argument order throws again, so no conversation id is ever returned for a pair that
  has none. Identifiers passed as strings are never found, so with them every call
  throws. Only when a direct conversation of the two is already stored and the
  identifiers are \<^verbatim>\<open>ObjectId\<close>s does the call return it, the same one in either order.
\<close>

theorem findOrCreateDirect_never_creates:
  "(find (\<lambda>c. \<not> isGroup c \<and> list_ex (elem_eq a) (participants c) \<and>
               list_ex (elem_eq b) (participants c) \<and> length (participants c) = 2) (conversations s) = None \<longrightarrow>
      findOrCreateDirect now newId s a b = (Inl ValidationError, s) \<and>
      findOrCreateDirect later otherId (snd (findOrCreateDirect now newId s a b)) b a =
        (Inl ValidationError, s)) \<and>
   (\<forall>c. find (\<lambda>c. \<not> isGroup c \<and> list_ex (elem_eq a) (participants c) \<and>
               list_ex (elem_eq b) (participants c) \<and> length (participants c) = 2) (conversations s) = Some c \<longrightarrow>
      findOrCreateDirect now newId s a b = (Inr c, s) \<and>
      findOrCreateDirect later otherId s b a = (Inr c, s) \<and>
      \<not> isGroup c \<and> length (participants c) = 2 \<and>
      id_value a \<in> set (participants c) \<and> id_value b \<in> set (participants c)) \<and>
   findOrCreateDirect now newId s (HexString x) b = (Inl ValidationError, s) \<and>
   findOrCreateDirect now newId s a (HexString x) = (Inl ValidationError, s)"
proof -
  let ?P = "\<lambda>c. \<not> isGroup c \<and> list_ex (elem_eq a) (participants c) \<and>
                 list_ex (elem_eq b) (participants c) \<and> length (participants c) = 2"
  have sym: "(\<lambda>c. \<not> isGroup c \<and> list_ex (elem_eq b) (participants c) \<and>
                 list_ex (elem_eq a) (participants c) \<and> length (participants c) = 2) = ?P"
    by (rule ext) auto
  have new: "save_new now
      \<lparr>conv_id = i, participants = [u, v], isGroup = False, groupInfo = default_groupInfo,
       metadata_createdBy = Some u, metadata_updatedAt = now, updatedAt = now,
       participantDetails = [new_participant now u, new_participant now v]\<rparr> s =
      Inl ValidationError" for now i u v
    by (rule save_new_rejected) simp
  have none: "find ?P (conversations s) = None \<Longrightarrow>
      findOrCreateDirect t i s a b = (Inl ValidationError, s) \<and>
      findOrCreateDirect t i s b a = (Inl ValidationError, s)" for t i
    by (simp add: findOrCreateDirect_def sym new)
  have val: "list_ex (elem_eq y) ps \<Longrightarrow> id_value y \<in> set ps" for y ps
    by (cases y) (auto simp: list_ex_iff)
  have str: "\<not> list_ex (elem_eq (HexString x)) ps" for ps
    by (simp add: list_ex_iff)
  show ?thesis
  proof (intro conjI allI impI)
    assume n: "find ?P (conversations s) = None"
    show "findOrCreateDirect now newId s a b = (Inl ValidationError, s)"
      using none [OF n] by simp
    then show "findOrCreateDirect later otherId (snd (findOrCreateDirect now newId s a b)) b a =
        (Inl ValidationError, s)"
      using none [OF n] by simp
  next
    fix c
    assume f: "find ?P (conversations s) = Some c"
    show "findOrCreateDirect now newId s a b = (Inr c, s)"
      by (simp add: findOrCreateDirect_def f)
    show "findOrCreateDirect later otherId s b a = (Inr c, s)"
      by (simp add: findOrCreateDirect_def sym f)
    show "\<not> isGroup c" "length (participants c) = 2"
      using find_SomeD [OF f] by simp_all
    show "id_value a \<in> set (participants c)" "id_value b \<in> set (participants c)"
      using find_SomeD [OF f] val by simp_all
  next
    show "findOrCreateDirect now newId s (HexString x) b = (Inl ValidationError, s)"
      by (simp add: findOrCreateDirect_def str find_never new)
    show "findOrCreateDirect now newId s a (HexString x) = (Inl ValidationError, s)"
      by (simp add: findOrCreateDirect_def str find_never new)
  qed
qed

theorem findOrCreateDirect_never_creates_witness:
  "find (\<lambda>c. \<not> isGroup c \<and> list_ex (elem_eq (ObjectId 1 ''A'')) (participants c) \<and>
               list_ex (elem_eq (ObjectId 2 ''B'')) (participants c) \<and> length (participants c) = 2) (conversations empty_store) = None \<and>
   findOrCreateDirect 1000 ''d1'' empty_store (ObjectId 1 ''A'') (ObjectId 2 ''B'') =
     (Inl ValidationError, empty_store) \<and>
   findOrCreateDirect 2000 ''d2''
     (snd (findOrCreateDirect 1000 ''d1'' empty_store (ObjectId 1 ''A'') (ObjectId 2 ''B'')))
     (ObjectId 2 ''B'') (ObjectId 1 ''A'') = (Inl ValidationError, empty_store) \<and>
   find (\<lambda>c. \<not> isGroup c \<and> list_ex (elem_eq (ObjectId 1 ''A'')) (participants c) \<and>
               list_ex (elem_eq (ObjectId 2 ''B'')) (participants c) \<and> length (participants c) = 2)
     (conversations \<lparr>conversations = [chat_ab], messages = []\<rparr>) = Some chat_ab \<and>
   findOrCreateDirect 2000 ''d2'' \<lparr>conversations = [chat_ab], messages = []\<rparr>
     (ObjectId 2 ''B'') (ObjectId 1 ''A'') =
     (Inr chat_ab, \<lparr>conversations = [chat_ab], messages = []\<rparr>) \<and>
   findOrCreateDirect 1000 ''d1'' \<lparr>conversations = [chat_ab], messages = []\<rparr>
     (HexString ''A'') (ObjectId 2 ''B'') =
     (Inl ValidationError, \<lparr>conversations = [chat_ab], messages = []\<rparr>)"
proof -
  let ?s = "\<lparr>conversations = [chat_ab], messages = []\<rparr>"
  have n: "find (\<lambda>c. \<not> isGroup c \<and> list_ex (elem_eq (ObjectId 1 ''A'')) (participants c) \<and>
               list_ex (elem_eq (ObjectId 2 ''B'')) (participants c) \<and> length (participants c) = 2) (conversations empty_store) = None"
    by (simp add: empty_store_def)
  note empty = findOrCreateDirect_never_creates [where s = empty_store
      and a = "ObjectId 1 ''A''" and b = "ObjectId 2 ''B''" and now = 1000 and newId = "''d1''"
      and later = 2000 and otherId = "''d2''", THEN conjunct1, THEN mp, OF n]
  have e: "findOrCreateDirect 1000 ''d1'' empty_store (ObjectId 1 ''A'') (ObjectId 2 ''B'') =
      (Inl ValidationError, empty_store)"
    using empty by (rule conjunct1)
  have e': "findOrCreateDirect 2000 ''d2''
      (snd (findOrCreateDirect 1000 ''d1'' empty_store (ObjectId 1 ''A'') (ObjectId 2 ''B'')))
      (ObjectId 2 ''B'') (ObjectId 1 ''A'') = (Inl ValidationError, empty_store)"
    using empty by (rule conjunct2)
  have f: "find (\<lambda>c. \<not> isGroup c \<and> list_ex (elem_eq (ObjectId 1 ''A'')) (participants c) \<and>
               list_ex (elem_eq (ObjectId 2 ''B'')) (participants c) \<and> length (participants c) = 2) (conversations ?s) = Some chat_ab"
    by (simp add: chat_ab_def)
  note stored = findOrCreateDirect_never_creates [where s = ?s
      and a = "ObjectId 1 ''A''" and b = "ObjectId 2 ''B''" and now = 1000 and newId = "''d1''"
      and later = 2000 and otherId = "''d2''" and x = "''A''"]
  have g: "findOrCreateDirect 2000 ''d2'' ?s (ObjectId 2 ''B'') (ObjectId 1 ''A'') =
      (Inr chat_ab, ?s)"
    using stored [THEN conjunct2, THEN conjunct1, THEN spec, THEN mp, OF f,
        THEN conjunct2, THEN conjunct1] .
  have h: "findOrCreateDirect 1000 ''d1'' ?s (HexString ''A'') (ObjectId 2 ''B'') =
      (Inl ValidationError, ?s)"
    using stored [THEN conjunct2, THEN conjunct2, THEN conjunct1] .
  show ?thesis by (intro conjI) fact+
qed

text \<open>
  C10. The claim fails: no creation path produces a group. createGroupConversation
  answers 500, stores nothing and notifies nobody, whatever the request: the document
  it builds has participants, each of which fails \<^verbatim>\<open>arrayLimit\<close>, and no
  \<^verbatim>\<open>metadata.createdBy\<close>. The model's createGroup throws the validation error of its
  save and stores nothing, for the first of these reasons.
\<close>

theorem group_creation_fails:
  "createGroupConversation now newId s groupName requested creatorId =
     (Failure 500 ''Failed to create group conversation'', s, []) \<and>
   createGroup now newId s creator groupName members = (Inl ValidationError, s) \<and>
   creatorId \<in> set (js_set (requested @ [creatorId])) \<and> \<not> arrayLimit creatorId \<and>
   \<not> validate
       \<lparr>conv_id = newId, participants = js_set (requested @ [creatorId]), isGroup = True,
        groupInfo = default_groupInfo, metadata_createdBy = None,
        metadata_updatedAt = now, updatedAt = now, participantDetails = []\<rparr>"
proof (intro conjI)
  show "createGroupConversation now newId s groupName requested creatorId =
     (Failure 500 ''Failed to create group conversation'', s, [])"
    by (rule createGroupConversation_result)
  show "createGroup now newId s creator groupName members = (Inl ValidationError, s)"
    by (rule createGroup_result)
  show "creatorId \<in> set (js_set (requested @ [creatorId]))"
    by (simp add: set_js_set)
  show "\<not> arrayLimit creatorId"
    by (rule arrayLimit_never)
  show "\<not> validate
       \<lparr>conv_id = newId, participants = js_set (requested @ [creatorId]), isGroup = True,
        groupInfo = default_groupInfo, metadata_createdBy = None,
        metadata_updatedAt = now, updatedAt = now, participantDetails = []\<rparr>"
    by (simp add: validate_def)
qed

end
